theory Spec2Isabelle
  imports Main "HOL-Library.AList"
begin

section \<open>Values shared by the whole workflow\<close>

text \<open>
  Python exceptions are values. Every constructor stands for a subclass of
  \<^verbatim>\<open>Exception\<close> and carries the text that \<^verbatim>\<open>str(e)\<close> yields; the constructor
  \<open>Exception\<close> stands for every subclass the code does not single out.
  A computation that may raise has the type \<open>exn + 'a\<close>, with \<open>Inl\<close> the raise.
\<close>

datatype exn =
    FileNotFoundError string
  | JSONDecodeError string
  | AttributeError string
  | Exception string

fun exn_str :: "exn \<Rightarrow> string" where
  "exn_str (FileNotFoundError m) = m"
| "exn_str (JSONDecodeError m) = m"
| "exn_str (AttributeError m) = m"
| "exn_str (Exception m) = m"

text \<open>
  \<^verbatim>\<open>try: body  except Exception as e: handler(e)\<close>: the handler runs on every raise
  of the body, and what the handler raises propagates.
\<close>

definition try_except :: "exn + 'a \<Rightarrow> (exn \<Rightarrow> exn + 'a) \<Rightarrow> exn + 'a" where
  "try_except body handler = (case body of Inl e \<Rightarrow> handler e | Inr v \<Rightarrow> Inr v)"

text \<open>
  The reply object of the model client. The code reads it in two ways:
  \<^verbatim>\<open>reply.content\<close> (the text of the completion) and \<^verbatim>\<open>str(reply)\<close>, also through
  an f-string (the printed form of the whole message object).
\<close>

record ai_message =
  reply_content :: string
  reply_str :: string

text \<open>
  A value of an analysis dictionary is a Python \<^verbatim>\<open>str\<close> or a reply object.
  \<open>py_str\<close> is \<^verbatim>\<open>str(v)\<close>, which an f-string applies to the value it embeds.
\<close>

datatype analysis = Text string | Reply ai_message

fun py_str :: "analysis \<Rightarrow> string" where
  "py_str (Text s) = s"
| "py_str (Reply r) = reply_str r"

text \<open>
  A Python \<^verbatim>\<open>dict\<close> keyed by candidate id: an association list in insertion order
  with one pair per key. \<^verbatim>\<open>d[k] = v\<close> is \<^const>\<open>AList.update\<close> (the value is replaced in
  place when the key is there, the pair is appended when it is not), \<^verbatim>\<open>len(d)\<close>
  is the length of the list and \<^verbatim>\<open>d.get(k, default)\<close> is \<open>dict_get\<close>.
\<close>

type_synonym analysis_dict = "(string \<times> analysis) list"

definition dict_get :: "analysis_dict \<Rightarrow> string \<Rightarrow> analysis \<Rightarrow> analysis" where
  "dict_get d k dflt = (case map_of d k of Some v \<Rightarrow> v | None \<Rightarrow> dflt)"

text \<open>JSON values as \<^verbatim>\<open>json.loads\<close> builds them and as the code writes them.\<close>

datatype json =
    JNull
  | JBool bool
  | JInt int
  | JFloat string
  | JStr string
  | JArr "json list"
  | JObj "(string \<times> json) list"

text \<open>
  A candidate is a \<^verbatim>\<open>dict\<close> of strings. \<open>None\<close> in a field is an absent key:
  \<^verbatim>\<open>candidate.get("resume_path")\<close> is then \<^verbatim>\<open>None\<close>.
\<close>

record candidate =
  cand_id :: "string option"
  resume_path :: "string option"
  linkedin_url :: "string option"
  cover_letter_path :: "string option"

record message =
  msg_content :: string
  msg_name :: string

definition HumanMessage :: "string \<Rightarrow> string \<Rightarrow> message" where
  "HumanMessage c n = \<lparr>msg_content = c, msg_name = n\<rparr>"

record final_ranking_dict =
  detailed_report :: string
  structured_output :: json

text \<open>\<^verbatim>\<open>CandidateState\<close> of \<^verbatim>\<open>state.py\<close>; \<open>None\<close> is the empty \<^verbatim>\<open>final_ranking\<close>.\<close>

record state =
  messages :: "message list"
  job_offer :: string
  candidates :: "candidate list"
  resume_analyses :: analysis_dict
  linkedin_analyses :: analysis_dict
  cover_letter_analyses :: analysis_dict
  job_matches :: analysis_dict
  final_ranking :: "final_ranking_dict option"
  next_agent :: string

text \<open>
  What a node returns: a \<^verbatim>\<open>dict\<close> holding some of the keys of the state.
  \<open>None\<close> is a key the node does not return.
\<close>

record update =
  upd_messages :: "message list"
  upd_resume_analyses :: "analysis_dict option"
  upd_linkedin_analyses :: "analysis_dict option"
  upd_cover_letter_analyses :: "analysis_dict option"
  upd_job_matches :: "analysis_dict option"
  upd_final_ranking :: "final_ranking_dict option"
  upd_next :: "string option"

definition no_update :: update where
  "no_update = \<lparr>upd_messages = [], upd_resume_analyses = None,
     upd_linkedin_analyses = None, upd_cover_letter_analyses = None,
     upd_job_matches = None, upd_final_ranking = None, upd_next = None\<rparr>"

text \<open>
  The external collaborators, none of which is code of the repository: the model
  client (\<^verbatim>\<open>llm.invoke\<close> and the structured routing call of the supervisor), the
  file system and PyPDF2 (\<^verbatim>\<open>Path.exists\<close>; \<^verbatim>\<open>PdfReader(path).pages\<close> with the outcome
  of \<^verbatim>\<open>page.extract_text()\<close> for each page), \<^verbatim>\<open>urlparse\<close> (scheme and network
  location), the web loader (the \<^verbatim>\<open>page_content\<close> of the documents it loads, given
  the CSS classes to keep), \<^verbatim>\<open>json.loads\<close>, and \<^verbatim>\<open>str\<close> of a parsed JSON value.
  Each is a function, and each may raise.
\<close>

record env =
  llm_invoke :: "string \<Rightarrow> exn + ai_message"
  route_invoke :: "message list \<Rightarrow> exn + string"
  path_exists :: "string \<Rightarrow> bool"
  pdf_reader :: "string \<Rightarrow> exn + (exn + string) list"
  urlparse :: "string \<Rightarrow> exn + string \<times> string"
  web_load :: "string list \<Rightarrow> string \<Rightarrow> exn + string list"
  json_loads :: "string \<Rightarrow> exn + json"
  json_repr :: "json \<Rightarrow> string"

section \<open>Strings\<close>

definition digit_char :: "nat \<Rightarrow> char" where
  "digit_char d = ''0123456789'' ! d"

text \<open>\<^verbatim>\<open>str(n)\<close> of a natural number, as the f-strings print an index or a length.\<close>

fun string_of_nat :: "nat \<Rightarrow> string" where
  "string_of_nat n =
     (if n < 10 then [digit_char n]
      else string_of_nat (n div 10) @ [digit_char (n mod 10)])"

declare string_of_nat.simps [simp del]

text \<open>\<^verbatim>\<open>sep.join(xs)\<close>.\<close>

fun join :: "string \<Rightarrow> string list \<Rightarrow> string" where
  "join sep [] = []"
| "join sep [x] = x"
| "join sep (x # y # ys) = x @ sep @ join sep (y # ys)"

text \<open>
  \<^verbatim>\<open>str.strip()\<close>: the whitespace characters are removed at both ends. Among the
  first 256 code points these are the tab, the line feed, the vertical tab, the form
  feed, the carriage return, the four separators 0x1C to 0x1F, the space, the next
  line character 0x85 and the no-break space 0xA0.
\<close>

definition is_space :: "char \<Rightarrow> bool" where
  "is_space c = (c \<in> set [CHR 0x09, CHR 0x0A, CHR 0x0B, CHR 0x0C, CHR 0x0D,
                            CHR 0x1C, CHR 0x1D, CHR 0x1E, CHR 0x1F, CHR 0x20,
                            CHR 0x85, CHR 0xA0])"

definition strip :: "string \<Rightarrow> string" where
  "strip s = rev (dropWhile is_space (rev (dropWhile is_space s)))"

text \<open>\<^verbatim>\<open>s.startswith(p)\<close> and \<^verbatim>\<open>sub in s\<close>.\<close>

definition startswith :: "string \<Rightarrow> string \<Rightarrow> bool" where
  "startswith s p = (take (length p) s = p)"

fun contains :: "string \<Rightarrow> string \<Rightarrow> bool" where
  "contains [] sub = (sub = [])"
| "contains (c # cs) sub = (startswith (c # cs) sub \<or> contains cs sub)"

text \<open>
  \<^verbatim>\<open>s.split(sep)\<close> for a separator that is not empty: the pieces between the
  occurrences of the separator, found from the left without overlap. \<open>cur\<close> is the
  piece being read.
\<close>

fun split_from :: "string \<Rightarrow> string \<Rightarrow> string \<Rightarrow> string list" where
  "split_from sep cur [] = [cur]"
| "split_from sep cur (c # cs) =
     (if startswith (c # cs) sep
      then cur # split_from sep [] (drop (length sep - 1) cs)
      else split_from sep (cur @ [c]) cs)"

definition split :: "string \<Rightarrow> string \<Rightarrow> string list" where
  "split s sep = split_from sep [] s"

text \<open>
  \<^verbatim>\<open>xs[i]\<close> raises \<^verbatim>\<open>IndexError\<close> out of range.
\<close>

definition index :: "'a list \<Rightarrow> nat \<Rightarrow> exn + 'a" where
  "index xs i = (if i < length xs then Inr (xs ! i) else Inl (Exception ''list index out of range''))"

section \<open>Document extractors\<close>

subsection \<open>\<^verbatim>\<open>tools/pdf_parser.py\<close>\<close>

text \<open>
  The loop over the pages. A page whose \<^verbatim>\<open>extract_text\<close> raises is skipped by the
  \<^verbatim>\<open>except Exception\<close> inside the loop (a warning is logged, then \<^verbatim>\<open>continue\<close>);
  a page whose text is blank is not appended.
\<close>

fun page_loop :: "(exn + string) list \<Rightarrow> string list \<Rightarrow> string list" where
  "page_loop [] text_content = text_content"
| "page_loop (page # pages) text_content =
     (case page of
        Inl e \<Rightarrow> page_loop pages text_content
      | Inr text \<Rightarrow>
          if strip text \<noteq> [] then page_loop pages (text_content @ [text])
          else page_loop pages text_content)"

definition parse_pdf_body :: "env \<Rightarrow> string \<Rightarrow> exn + string" where
  "parse_pdf_body env file_path =
     (if \<not> path_exists env file_path
      then Inl (FileNotFoundError (''PDF file not found: '' @ file_path))
      else
        (case pdf_reader env file_path of
           Inl e \<Rightarrow> Inl e
         | Inr pages \<Rightarrow>
             (let text_content = page_loop pages [];
                  full_text = join ''\<newline>\<newline>'' text_content
              in if strip full_text = [] then Inr [] else Inr full_text)))"

text \<open>
  \<^verbatim>\<open>except FileNotFoundError: raise\<close> comes first; any other exception is raised
  again as a plain \<^verbatim>\<open>Exception\<close> with the prefix.
\<close>

definition parse_pdf :: "env \<Rightarrow> string \<Rightarrow> exn + string" where
  "parse_pdf env file_path =
     try_except (parse_pdf_body env file_path)
       (\<lambda>e. case e of
              FileNotFoundError m \<Rightarrow> Inl (FileNotFoundError m)
            | _ \<Rightarrow> Inl (Exception (''Error parsing PDF: '' @ exn_str e)))"

subsection \<open>\<^verbatim>\<open>tools/linkedin_scraper.py\<close>\<close>

definition linkedin_classes :: "string list" where
  "linkedin_classes = [''profile'', ''profile-section'', ''pv-top-card'',
     ''experience-section'', ''education-section'', ''skill-section'']"

definition scrape_linkedin :: "env \<Rightarrow> string \<Rightarrow> exn + string" where
  "scrape_linkedin env url_or_text =
     try_except
       (case urlparse env url_or_text of
          Inl e \<Rightarrow> Inl e
        | Inr (scheme, netloc) \<Rightarrow>
            (let is_url = (scheme \<noteq> [] \<and> netloc \<noteq> [])
             in if \<not> is_url then Inr url_or_text
                else
                  (case web_load env linkedin_classes url_or_text of
                     Inl e \<Rightarrow> Inl e
                   | Inr docs \<Rightarrow>
                       if docs = [] then Inr []
                       else Inr (join ''\<newline>\<newline>'' docs))))
       (\<lambda>e. Inr (''Error accessing LinkedIn profile: '' @ exn_str e))"

section \<open>Per-candidate steps\<close>

text \<open>\<^verbatim>\<open>candidate.get("id", f"candidate_{idx}")\<close>.\<close>

definition candidate_id :: "candidate \<Rightarrow> nat \<Rightarrow> string" where
  "candidate_id candidate idx =
     (case cand_id candidate of
        Some i \<Rightarrow> i
      | None \<Rightarrow> ''candidate_'' @ string_of_nat idx)"

text \<open>\<^verbatim>\<open>not v\<close> for an optional string: true of \<^verbatim>\<open>None\<close> and of the empty string.\<close>

definition falsy :: "string option \<Rightarrow> bool" where
  "falsy v = (case v of None \<Rightarrow> True | Some s \<Rightarrow> s = [])"

text \<open>
  \<^verbatim>\<open>for x in xs: body\<close> over a state that the body updates; a raise of the body
  leaves the loop.
\<close>

fun for_each :: "('s \<Rightarrow> 'a \<Rightarrow> exn + 's) \<Rightarrow> 'a list \<Rightarrow> 's \<Rightarrow> exn + 's" where
  "for_each body [] s = Inr s"
| "for_each body (x # xs) s =
     (case body s x of Inl e \<Rightarrow> Inl e | Inr s' \<Rightarrow> for_each body xs s')"

subsection \<open>\<^verbatim>\<open>agents/resume_analyzer.py\<close>\<close>

definition resume_prompt :: "string \<Rightarrow> string" where
  "resume_prompt resume_text =
     ''Analyze the following resume and extract key information:\<newline>\<newline>'' @
     ''Resume Content:\<newline>'' @ resume_text @ ''\<newline>\<newline>'' @
     ''Provide a structured analysis including:\<newline>'' @
     ''1. Skills (technical and soft skills)\<newline>'' @
     ''2. Work Experience (positions, companies, duration, key achievements)\<newline>'' @
     ''3. Education (degrees, institutions, graduation dates)\<newline>'' @
     ''4. Certifications and additional qualifications\<newline>'' @
     ''5. Overall strengths and areas of expertise\<newline>\<newline>'' @
     ''Be concise but thorough.''"

text \<open>The \<^verbatim>\<open>try\<close> block, up to the value it stores: the reply object itself.\<close>

definition resume_attempt :: "env \<Rightarrow> string \<Rightarrow> exn + analysis" where
  "resume_attempt env path =
     (case parse_pdf env path of
        Inl e \<Rightarrow> Inl e
      | Inr resume_text \<Rightarrow>
          (case llm_invoke env (resume_prompt resume_text) of
             Inl e \<Rightarrow> Inl e
           | Inr analysis \<Rightarrow> Inr (Reply analysis)))"

definition analyze_resume_body ::
    "env \<Rightarrow> analysis_dict \<Rightarrow> nat \<times> candidate \<Rightarrow> exn + analysis_dict" where
  "analyze_resume_body env resume_analyses_acc ic =
     (case ic of (idx, candidate) \<Rightarrow>
        (let cid = candidate_id candidate idx
         in if falsy (resume_path candidate)
            then Inr (AList.update cid (Text ''No resume provided'') resume_analyses_acc)
            else
              try_except
                (case resume_attempt env (the (resume_path candidate)) of
                   Inl e \<Rightarrow> Inl e
                 | Inr analysis \<Rightarrow> Inr (AList.update cid analysis resume_analyses_acc))
                (\<lambda>e. Inr (AList.update cid
                             (Text (''Error analyzing resume: '' @ exn_str e))
                             resume_analyses_acc))))"

definition analyze_resume :: "env \<Rightarrow> state \<Rightarrow> exn + update" where
  "analyze_resume env st =
     (case for_each (analyze_resume_body env) (enumerate 0 (candidates st)) [] of
        Inl e \<Rightarrow> Inl e
      | Inr resume_analyses_acc \<Rightarrow>
          Inr (no_update
            \<lparr>upd_messages :=
               [HumanMessage
                  (''Resume Analyzer: Completed analysis of '' @
                   string_of_nat (length resume_analyses_acc) @ '' candidate resumes.'')
                  ''ResumeAnalyzer''],
             upd_resume_analyses := Some resume_analyses_acc\<rparr>))"

subsection \<open>\<^verbatim>\<open>agents/linkedin_analyzer.py\<close>\<close>

definition linkedin_prompt :: "string \<Rightarrow> string" where
  "linkedin_prompt linkedin_text =
     ''Analyze the following LinkedIn profile and extract key insights:\<newline>\<newline>'' @
     ''LinkedIn Profile:\<newline>'' @ linkedin_text @ ''\<newline>\<newline>'' @
     ''Provide a structured analysis including:\<newline>'' @
     ''1. Professional Summary and headline\<newline>'' @
     ''2. Career trajectory and progression\<newline>'' @
     ''3. Key skills and endorsements\<newline>'' @
     ''4. Notable accomplishments and projects\<newline>'' @
     ''5. Professional network indicators (if available)\<newline>'' @
     ''6. Recommendations and testimonials (if available)\<newline>'' @
     ''7. Overall professional brand and positioning\<newline>\<newline>'' @
     ''Be concise but insightful.''"

text \<open>
  The \<^verbatim>\<open>try\<close> block: a scraped text that is empty or starts with \<^verbatim>\<open>Error\<close> is
  stored as it is (or the fixed string when it is empty) and the model is not called.
\<close>

definition linkedin_attempt :: "env \<Rightarrow> string \<Rightarrow> exn + analysis" where
  "linkedin_attempt env url =
     (case scrape_linkedin env url of
        Inl e \<Rightarrow> Inl e
      | Inr linkedin_text \<Rightarrow>
          if linkedin_text = [] \<or> startswith linkedin_text ''Error''
          then Inr (Text (if linkedin_text \<noteq> [] then linkedin_text
                          else ''No content available''))
          else
            (case llm_invoke env (linkedin_prompt linkedin_text) of
               Inl e \<Rightarrow> Inl e
             | Inr analysis \<Rightarrow> Inr (Reply analysis)))"

definition analyze_linkedin_body ::
    "env \<Rightarrow> analysis_dict \<Rightarrow> nat \<times> candidate \<Rightarrow> exn + analysis_dict" where
  "analyze_linkedin_body env linkedin_analyses_acc ic =
     (case ic of (idx, candidate) \<Rightarrow>
        (let cid = candidate_id candidate idx
         in if falsy (linkedin_url candidate)
            then Inr (AList.update cid (Text ''No LinkedIn profile provided'')
                        linkedin_analyses_acc)
            else
              try_except
                (case linkedin_attempt env (the (linkedin_url candidate)) of
                   Inl e \<Rightarrow> Inl e
                 | Inr analysis \<Rightarrow> Inr (AList.update cid analysis linkedin_analyses_acc))
                (\<lambda>e. Inr (AList.update cid
                             (Text (''Error analyzing LinkedIn: '' @ exn_str e))
                             linkedin_analyses_acc))))"

definition analyze_linkedin :: "env \<Rightarrow> state \<Rightarrow> exn + update" where
  "analyze_linkedin env st =
     (case for_each (analyze_linkedin_body env) (enumerate 0 (candidates st)) [] of
        Inl e \<Rightarrow> Inl e
      | Inr linkedin_analyses_acc \<Rightarrow>
          Inr (no_update
            \<lparr>upd_messages :=
               [HumanMessage
                  (''LinkedIn Analyzer: Completed analysis of '' @
                   string_of_nat (length linkedin_analyses_acc) @ '' LinkedIn profiles.'')
                  ''LinkedInAnalyzer''],
             upd_linkedin_analyses := Some linkedin_analyses_acc\<rparr>))"

subsection \<open>\<^verbatim>\<open>agents/cover_letter_analyzer.py\<close>\<close>

definition cover_letter_prompt :: "string \<Rightarrow> string" where
  "cover_letter_prompt cover_letter_text =
     ''Analyze the following cover letter and extract key insights:\<newline>\<newline>'' @
     ''Cover Letter:\<newline>'' @ cover_letter_text @ ''\<newline>\<newline>'' @
     ''Provide a structured analysis including:\<newline>'' @
     ''1. Motivation for applying\<newline>'' @
     ''2. Understanding of the role and company\<newline>'' @
     ''3. Cultural fit indicators\<newline>'' @
     ''4. Communication style and professionalism\<newline>'' @
     ''5. Unique value propositions mentioned\<newline>'' @
     ''6. Passion and enthusiasm level\<newline>'' @
     ''7. Writing quality and clarity\<newline>\<newline>'' @
     ''Be concise but insightful.''"

definition cover_letter_attempt :: "env \<Rightarrow> string \<Rightarrow> exn + analysis" where
  "cover_letter_attempt env path =
     (case parse_pdf env path of
        Inl e \<Rightarrow> Inl e
      | Inr cover_letter_text \<Rightarrow>
          if strip cover_letter_text = []
          then Inr (Text ''Cover letter file is empty'')
          else
            (case llm_invoke env (cover_letter_prompt cover_letter_text) of
               Inl e \<Rightarrow> Inl e
             | Inr analysis \<Rightarrow> Inr (Reply analysis)))"

text \<open>\<^verbatim>\<open>except FileNotFoundError\<close> comes before \<^verbatim>\<open>except Exception as e\<close>.\<close>

definition cover_letter_error :: "exn \<Rightarrow> analysis" where
  "cover_letter_error e =
     (case e of
        FileNotFoundError m \<Rightarrow> Text ''Cover letter file not found''
      | _ \<Rightarrow> Text (''Error analyzing cover letter: '' @ exn_str e))"

definition analyze_cover_letter_body ::
    "env \<Rightarrow> analysis_dict \<Rightarrow> nat \<times> candidate \<Rightarrow> exn + analysis_dict" where
  "analyze_cover_letter_body env cover_letter_analyses_acc ic =
     (case ic of (idx, candidate) \<Rightarrow>
        (let cid = candidate_id candidate idx
         in if falsy (cover_letter_path candidate)
            then Inr (AList.update cid (Text ''No cover letter provided (optional)'')
                        cover_letter_analyses_acc)
            else
              try_except
                (case cover_letter_attempt env (the (cover_letter_path candidate)) of
                   Inl e \<Rightarrow> Inl e
                 | Inr analysis \<Rightarrow>
                     Inr (AList.update cid analysis cover_letter_analyses_acc))
                (\<lambda>e. Inr (AList.update cid (cover_letter_error e)
                             cover_letter_analyses_acc))))"

definition analyze_cover_letter :: "env \<Rightarrow> state \<Rightarrow> exn + update" where
  "analyze_cover_letter env st =
     (case for_each (analyze_cover_letter_body env) (enumerate 0 (candidates st)) [] of
        Inl e \<Rightarrow> Inl e
      | Inr cover_letter_analyses_acc \<Rightarrow>
          Inr (no_update
            \<lparr>upd_messages :=
               [HumanMessage
                  (''Cover Letter Analyzer: Completed analysis of '' @
                   string_of_nat (length cover_letter_analyses_acc) @ '' cover letters.'')
                  ''CoverLetterAnalyzer''],
             upd_cover_letter_analyses := Some cover_letter_analyses_acc\<rparr>))"

subsection \<open>\<^verbatim>\<open>agents/job_matcher.py\<close>\<close>

definition match_prompt :: "string \<Rightarrow> analysis \<Rightarrow> analysis \<Rightarrow> analysis \<Rightarrow> string" where
  "match_prompt offer resume_analysis linkedin_analysis cover_letter_analysis =
     ''Match the following candidate against the job offer requirements:\<newline>\<newline>'' @
     ''JOB OFFER:\<newline>'' @ offer @ ''\<newline>\<newline>'' @
     ''CANDIDATE PROFILE:\<newline>\<newline>'' @
     ''Resume Analysis:\<newline>'' @ py_str resume_analysis @ ''\<newline>\<newline>'' @
     ''LinkedIn Analysis:\<newline>'' @ py_str linkedin_analysis @ ''\<newline>\<newline>'' @
     ''Cover Letter Analysis:\<newline>'' @ py_str cover_letter_analysis @ ''\<newline>\<newline>'' @
     ''Provide a comprehensive matching assessment including:\<newline>'' @
     ''1. Overall compatibility score (0-100)\<newline>'' @
     ''2. Key strengths that align with the job requirements\<newline>'' @
     ''3. Gaps or areas of concern\<newline>'' @
     ''4. Technical skills match\<newline>'' @
     ''5. Experience level match\<newline>'' @
     ''6. Cultural fit indicators\<newline>'' @
     ''7. Unique advantages this candidate brings\<newline>'' @
     ''8. Potential risks or limitations\<newline>\<newline>'' @
     ''Be objective and thorough in your assessment.''"

text \<open>The prompt of one candidate, from the three earlier dictionaries.\<close>

definition candidate_match_prompt :: "state \<Rightarrow> string \<Rightarrow> string" where
  "candidate_match_prompt st cid =
     (let resume_analysis = dict_get (resume_analyses st) cid (Text ''No resume analysis'');
          linkedin_analysis = dict_get (linkedin_analyses st) cid (Text ''No LinkedIn analysis'');
          cover_letter_analysis =
            dict_get (cover_letter_analyses st) cid (Text ''No cover letter analysis'')
      in match_prompt (job_offer st) resume_analysis linkedin_analysis cover_letter_analysis)"

text \<open>The \<^verbatim>\<open>try\<close> block: the value stored is the \<^verbatim>\<open>content\<close> of the reply.\<close>

definition match_attempt :: "env \<Rightarrow> state \<Rightarrow> string \<Rightarrow> exn + analysis" where
  "match_attempt env st cid =
     (case llm_invoke env (candidate_match_prompt st cid) of
        Inl e \<Rightarrow> Inl e
      | Inr match_result_response \<Rightarrow> Inr (Text (reply_content match_result_response)))"

definition match_candidates_body ::
    "env \<Rightarrow> state \<Rightarrow> analysis_dict \<Rightarrow> nat \<times> candidate \<Rightarrow> exn + analysis_dict" where
  "match_candidates_body env st job_matches_acc ic =
     (case ic of (idx, candidate) \<Rightarrow>
        (let cid = candidate_id candidate idx
         in try_except
              (case match_attempt env st cid of
                 Inl e \<Rightarrow> Inl e
               | Inr v \<Rightarrow> Inr (AList.update cid v job_matches_acc))
              (\<lambda>e. Inr (AList.update cid
                           (Text (''Error in job matching: '' @ exn_str e))
                           job_matches_acc))))"

definition match_candidates :: "env \<Rightarrow> state \<Rightarrow> exn + update" where
  "match_candidates env st =
     (case for_each (match_candidates_body env st) (enumerate 0 (candidates st)) [] of
        Inl e \<Rightarrow> Inl e
      | Inr matches \<Rightarrow>
          Inr (no_update
            \<lparr>upd_messages :=
               [HumanMessage
                  (''Job Matcher: Completed matching analysis for '' @
                   string_of_nat (length matches) @
                   '' candidates against the job offer.'')
                  ''JobMatcher''],
             upd_job_matches := Some matches\<rparr>))"

section \<open>Final ranking: \<^verbatim>\<open>agents/final_ranker.py\<close>\<close>

definition candidate_summary :: "state \<Rightarrow> nat \<times> candidate \<Rightarrow> string" where
  "candidate_summary st ic =
     (case ic of (idx, candidate) \<Rightarrow>
        (let cid = candidate_id candidate idx
         in ''\<newline>CANDIDATE: '' @ cid @
            ''\<newline>Resume: '' @ py_str (dict_get (resume_analyses st) cid (Text ''N/A'')) @
            ''\<newline>LinkedIn: '' @ py_str (dict_get (linkedin_analyses st) cid (Text ''N/A'')) @
            ''\<newline>Cover Letter: '' @
              py_str (dict_get (cover_letter_analyses st) cid (Text ''N/A'')) @
            ''\<newline>Job Match: '' @ py_str (dict_get (job_matches st) cid (Text ''N/A'')) @
            ''\<newline>---\<newline>''))"

definition ranking_prompt :: "string \<Rightarrow> string \<Rightarrow> string" where
  "ranking_prompt offer all_candidates_text =
     ''Based on all the analyses, create a final ranking of candidates for the job offer.'' @
     ''\<newline>\<newline>JOB OFFER:\<newline>'' @ offer @ ''\<newline>\<newline>'' @
     ''CANDIDATE ANALYSES:\<newline>'' @ all_candidates_text @ ''\<newline>\<newline>'' @
     ''Provide:\<newline>'' @
     ''1. A ranked list of candidates (best to least suitable)\<newline>'' @
     ''2. For each candidate, provide:\<newline>'' @
     ''   - Overall score (0-100)\<newline>'' @
     ''   - Key strengths\<newline>'' @
     ''   - Key weaknesses\<newline>'' @
     ''   - Reasoning for their ranking\<newline>'' @
     ''   - Hiring recommendation (Strong Yes / Yes / Maybe / No)\<newline>'' @
     ''3. A summary comparing the top candidates\<newline>'' @
     ''4. Final recommendation\<newline>\<newline>'' @
     ''Be thorough, objective, and provide actionable insights for the hiring decision.''"

text \<open>The f-string embeds the reply object, so the report enters as \<^verbatim>\<open>str(reply)\<close>.\<close>

definition json_prompt :: "string \<Rightarrow> string" where
  \<open>json_prompt report =
     ''Based on the following detailed ranking report, extract a structured JSON ranking.'' @
     ''\<newline>\<newline>REPORT:\<newline>'' @ report @ ''\<newline>\<newline>'' @
     ''Return ONLY a valid JSON object with this structure:\<newline>'' @
     ''{\<newline>'' @
     ''    "rankings": [\<newline>'' @
     ''        {\<newline>'' @
     ''            "candidate_id": "candidate_id",\<newline>'' @
     ''            "rank": 1,\<newline>'' @
     ''            "score": 85,\<newline>'' @
     ''            "recommendation": "Strong Yes",\<newline>'' @
     ''            "key_strengths": ["strength1", "strength2"],\<newline>'' @
     ''            "key_weaknesses": ["weakness1", "weakness2"]\<newline>'' @
     ''        }\<newline>'' @
     ''    ],\<newline>'' @
     ''    "top_recommendation": "candidate_id",\<newline>'' @
     ''    "summary": "Brief summary of the decision"\<newline>'' @
     ''}\<newline>\<newline>'' @
     ''Ensure the JSON is valid and complete.''\<close>

text \<open>
  The text handed to \<^verbatim>\<open>json.loads\<close>: what stands between the first \<^verbatim>\<open>```json\<close> (or,
  failing that, the first \<^verbatim>\<open>```\<close>) and the next \<^verbatim>\<open>```\<close>, stripped; the whole text
  when there is no fence.
\<close>

definition extract_json :: "string \<Rightarrow> exn + string" where
  "extract_json json_str =
     (if contains json_str ''```json''
      then
        (case index (split json_str ''```json'') 1 of
           Inl e \<Rightarrow> Inl e
         | Inr part \<Rightarrow>
             (case index (split part ''```'') 0 of
                Inl e \<Rightarrow> Inl e
              | Inr inner \<Rightarrow> Inr (strip inner)))
      else if contains json_str ''```''
      then
        (case index (split json_str ''```'') 1 of
           Inl e \<Rightarrow> Inl e
         | Inr part \<Rightarrow>
             (case index (split part ''```'') 0 of
                Inl e \<Rightarrow> Inl e
              | Inr inner \<Rightarrow> Inr (strip inner)))
      else Inr json_str)"

definition fallback_entry :: "nat \<times> candidate \<Rightarrow> json" where
  "fallback_entry ic =
     (case ic of (idx, candidate) \<Rightarrow>
        JObj [(''candidate_id'', JStr (candidate_id candidate idx)),
              (''rank'', JInt (int idx + 1)),
              (''score'', JInt 0),
              (''recommendation'', JStr ''Unable to parse''),
              (''key_strengths'', JArr []),
              (''key_weaknesses'', JArr [])])"

definition fallback_output :: "candidate list \<Rightarrow> json" where
  "fallback_output cands =
     JObj [(''rankings'', JArr (map fallback_entry (enumerate 0 cands))),
           (''top_recommendation'',
              (case cands of
                 [] \<Rightarrow> JNull
               | c # _ \<Rightarrow>
                   JStr (case cand_id c of Some i \<Rightarrow> i | None \<Rightarrow> ''candidate_0''))),
           (''summary'', JStr ''Error parsing structured output'')]"

text \<open>
  The inner \<^verbatim>\<open>try\<close>: only \<^verbatim>\<open>json.JSONDecodeError\<close> is caught there and replaced
  by the fallback structure; any other exception leaves it.
\<close>

definition parse_structured :: "env \<Rightarrow> candidate list \<Rightarrow> ai_message \<Rightarrow> exn + json" where
  "parse_structured env cands json_response =
     try_except
       (case extract_json (reply_str json_response) of
          Inl e \<Rightarrow> Inl e
        | Inr json_str \<Rightarrow> json_loads env json_str)
       (\<lambda>e. case e of
              JSONDecodeError m \<Rightarrow> Inr (fallback_output cands)
            | _ \<Rightarrow> Inl e)"

definition py_type_name :: "json \<Rightarrow> string" where
  "py_type_name j =
     (case j of
        JNull \<Rightarrow> ''NoneType''
      | JBool b \<Rightarrow> ''bool''
      | JInt i \<Rightarrow> ''int''
      | JFloat f \<Rightarrow> ''float''
      | JStr s \<Rightarrow> ''str''
      | JArr xs \<Rightarrow> ''list''
      | JObj kvs \<Rightarrow> ''dict'')"

text \<open>\<^verbatim>\<open>j.get(key, default)\<close>: only a \<^verbatim>\<open>dict\<close> has the method.\<close>

definition json_get :: "json \<Rightarrow> string \<Rightarrow> json \<Rightarrow> exn + json" where
  "json_get j key dflt =
     (case j of
        JObj kvs \<Rightarrow> Inr (case map_of kvs key of Some v \<Rightarrow> v | None \<Rightarrow> dflt)
      | _ \<Rightarrow>
          Inl (AttributeError
                 (CHR 0x27 # py_type_name j @ CHR 0x27 # '' object has no attribute '' @
                  CHR 0x27 # ''get'' @ [CHR 0x27])))"

text \<open>\<^verbatim>\<open>str(j)\<close> inside the f-string of the summary.\<close>

definition json_to_str :: "env \<Rightarrow> json \<Rightarrow> string" where
  "json_to_str env j =
     (case j of
        JStr s \<Rightarrow> s
      | JNull \<Rightarrow> ''None''
      | _ \<Rightarrow> json_repr env j)"

definition all_candidates_text :: "state \<Rightarrow> string" where
  "all_candidates_text st =
     (let candidates_summary = map (candidate_summary st) (enumerate 0 (candidates st))
      in join ''\<newline>'' candidates_summary)"

definition rank_candidates_try :: "env \<Rightarrow> state \<Rightarrow> exn + update" where
  "rank_candidates_try env st =
     (case llm_invoke env (ranking_prompt (job_offer st) (all_candidates_text st)) of
        Inl e \<Rightarrow> Inl e
      | Inr report \<Rightarrow>
          (case llm_invoke env (json_prompt (reply_str report)) of
             Inl e \<Rightarrow> Inl e
           | Inr json_response \<Rightarrow>
               (case parse_structured env (candidates st) json_response of
                  Inl e \<Rightarrow> Inl e
                | Inr structured \<Rightarrow>
                    (case json_get structured ''top_recommendation'' (JStr ''N/A'') of
                       Inl e \<Rightarrow> Inl e
                     | Inr top_rec \<Rightarrow>
                         Inr (no_update
                           \<lparr>upd_messages :=
                              [HumanMessage
                                 (''Final Ranker: Completed ranking of '' @
                                  string_of_nat (length (candidates st)) @
                                  '' candidates. Top recommendation: '' @
                                  json_to_str env top_rec)
                                 ''FinalRanker''],
                            upd_final_ranking :=
                              Some \<lparr>detailed_report = reply_str report,
                                    structured_output = structured\<rparr>\<rparr>)))))"

definition error_ranking :: "exn \<Rightarrow> final_ranking_dict" where
  "error_ranking e =
     \<lparr>detailed_report = ''Error generating ranking: '' @ exn_str e,
      structured_output = JObj [(''error'', JStr (exn_str e))]\<rparr>"

definition rank_candidates :: "env \<Rightarrow> state \<Rightarrow> exn + update" where
  "rank_candidates env st =
     try_except (rank_candidates_try env st)
       (\<lambda>e. Inr (no_update
                \<lparr>upd_messages :=
                   [HumanMessage (''Final Ranker: Error - '' @ exn_str e) ''FinalRanker''],
                 upd_final_ranking := Some (error_ranking e)\<rparr>))"

section \<open>Coordinator\<close>

subsection \<open>\<^verbatim>\<open>supervisor.py\<close>\<close>

definition members :: "string list" where
  "members = [''ResumeAnalyzer'', ''LinkedInAnalyzer'', ''CoverLetterAnalyzer'',
              ''JobMatcher'', ''FinalRanker'']"

definition options :: "string list" where
  "options = [''FINISH''] @ members"

text \<open>
  The supervisor hands the message history to the model client, which answers with a
  \<^verbatim>\<open>RouteResponse\<close>; its field \<^verbatim>\<open>next\<close> has the type \<^verbatim>\<open>Literal[*options]\<close>, so an
  answer outside \<open>options\<close> is a validation error. The answer is returned as it is.
\<close>

definition supervisor_agent :: "env \<Rightarrow> state \<Rightarrow> exn + update" where
  "supervisor_agent env st =
     (case route_invoke env (messages st) of
        Inl e \<Rightarrow> Inl e
      | Inr nxt \<Rightarrow>
          if nxt \<in> set options then Inr (no_update\<lparr>upd_next := Some nxt\<rparr>)
          else Inl (Exception ''Input should be one of the options''))"

text \<open>
  The workflow rules that the system prompt of the supervisor gives to the model
  client, read as a first-match list over the names seen in the message history
  (rules 1 to 6 of \<^verbatim>\<open>WORKFLOW RULES (MANDATORY)\<close>). Rule 6 is the last branch: when
  rules 1 to 5 do not apply, \<^verbatim>\<open>FinalRanker\<close> has been seen.
\<close>

definition workflow_rules :: "string list \<Rightarrow> string" where
  "workflow_rules seen =
     (if ''ResumeAnalyzer'' \<notin> set seen then ''ResumeAnalyzer''
      else if ''ResumeAnalyzer'' \<in> set seen \<and> ''LinkedInAnalyzer'' \<notin> set seen
        then ''LinkedInAnalyzer''
      else if ''LinkedInAnalyzer'' \<in> set seen \<and> ''CoverLetterAnalyzer'' \<notin> set seen
        then ''CoverLetterAnalyzer''
      else if ''CoverLetterAnalyzer'' \<in> set seen \<and> ''JobMatcher'' \<notin> set seen
        then ''JobMatcher''
      else if ''JobMatcher'' \<in> set seen \<and> ''FinalRanker'' \<notin> set seen
        then ''FinalRanker''
      else ''FINISH'')"

subsection \<open>\<^verbatim>\<open>graph.py\<close>\<close>

datatype node =
    ResumeAnalyzer | LinkedInAnalyzer | CoverLetterAnalyzer | JobMatcher | FinalRanker
  | supervisor

text \<open>\<^verbatim>\<open>workflow.add_node(name, function)\<close>.\<close>

fun node_name :: "node \<Rightarrow> string" where
  "node_name ResumeAnalyzer = ''ResumeAnalyzer''"
| "node_name LinkedInAnalyzer = ''LinkedInAnalyzer''"
| "node_name CoverLetterAnalyzer = ''CoverLetterAnalyzer''"
| "node_name JobMatcher = ''JobMatcher''"
| "node_name FinalRanker = ''FinalRanker''"
| "node_name supervisor = ''supervisor''"

fun node_fn :: "node \<Rightarrow> env \<Rightarrow> state \<Rightarrow> exn + update" where
  "node_fn ResumeAnalyzer = analyze_resume"
| "node_fn LinkedInAnalyzer = analyze_linkedin"
| "node_fn CoverLetterAnalyzer = analyze_cover_letter"
| "node_fn JobMatcher = match_candidates"
| "node_fn FinalRanker = rank_candidates"
| "node_fn supervisor = supervisor_agent"

text \<open>
  The conditional edges leaving the supervisor, keyed by \<^verbatim>\<open>state["next"]\<close>;
  \<open>None\<close> is \<^verbatim>\<open>END\<close>.
\<close>

definition path_map :: "(string \<times> node option) list" where
  "path_map =
     [(''ResumeAnalyzer'', Some ResumeAnalyzer),
      (''LinkedInAnalyzer'', Some LinkedInAnalyzer),
      (''CoverLetterAnalyzer'', Some CoverLetterAnalyzer),
      (''JobMatcher'', Some JobMatcher),
      (''FinalRanker'', Some FinalRanker),
      (''FINISH'', None)]"

text \<open>
  How the graph folds what a node returns into the state: \<^verbatim>\<open>messages\<close> is annotated
  with \<^verbatim>\<open>operator.add\<close>, so the returned messages are appended; every other key that
  the node returns replaces the value of the state.
\<close>

definition apply_update :: "state \<Rightarrow> update \<Rightarrow> state" where
  "apply_update st u =
     st\<lparr>messages := messages st @ upd_messages u,
        resume_analyses :=
          (case upd_resume_analyses u of None \<Rightarrow> resume_analyses st | Some d \<Rightarrow> d),
        linkedin_analyses :=
          (case upd_linkedin_analyses u of None \<Rightarrow> linkedin_analyses st | Some d \<Rightarrow> d),
        cover_letter_analyses :=
          (case upd_cover_letter_analyses u of
             None \<Rightarrow> cover_letter_analyses st | Some d \<Rightarrow> d),
        job_matches :=
          (case upd_job_matches u of None \<Rightarrow> job_matches st | Some d \<Rightarrow> d),
        final_ranking :=
          (case upd_final_ranking u of None \<Rightarrow> final_ranking st | Some r \<Rightarrow> Some r),
        next_agent := (case upd_next u of None \<Rightarrow> next_agent st | Some n \<Rightarrow> n)\<rparr>"

text \<open>
  A run of the compiled graph from a node. Every member has an edge back to the
  supervisor; the supervisor leaves by the conditional edge. \<open>limit\<close> counts the nodes
  that may still run: the runtime stops a run that reaches its recursion limit with an
  error, which is the only way the loop is bounded.
\<close>

fun run_graph :: "env \<Rightarrow> nat \<Rightarrow> node \<Rightarrow> state \<Rightarrow> exn + state" where
  "run_graph env 0 n st = Inl (Exception ''Recursion limit reached'')"
| "run_graph env (Suc limit) n st =
     (case node_fn n env st of
        Inl e \<Rightarrow> Inl e
      | Inr u \<Rightarrow>
          (let st' = apply_update st u
           in if n = supervisor
              then
                (case map_of path_map (next_agent st') of
                   None \<Rightarrow> Inl (Exception ''unknown branch'')
                 | Some None \<Rightarrow> Inr st'
                 | Some (Some n') \<Rightarrow> run_graph env limit n' st')
              else run_graph env limit supervisor st'))"

subsection \<open>\<^verbatim>\<open>main.py\<close>\<close>

definition initial_state :: "string \<Rightarrow> candidate list \<Rightarrow> state" where
  "initial_state offer cands =
     \<lparr>messages =
        [HumanMessage
           (''Please evaluate '' @ string_of_nat (length cands) @
            '' candidates for the following job offer. '' @
            ''Follow the complete workflow: analyze resumes, LinkedIn profiles, cover letters, '' @
            ''match candidates to the job, and provide final rankings.'')
           ''user''],
      job_offer = offer,
      candidates = cands,
      resume_analyses = [],
      linkedin_analyses = [],
      cover_letter_analyses = [],
      job_matches = [],
      final_ranking = None,
      next_agent = []\<rparr>"

record evaluation =
  out_detailed_report :: string
  out_structured_output :: json
  out_resume_analyses :: analysis_dict
  out_linkedin_analyses :: analysis_dict
  out_cover_letter_analyses :: analysis_dict
  out_job_matches :: analysis_dict

definition evaluate_candidates ::
    "env \<Rightarrow> nat \<Rightarrow> string \<Rightarrow> candidate list \<Rightarrow> exn + evaluation" where
  "evaluate_candidates env limit offer cands =
     (case run_graph env limit supervisor (initial_state offer cands) of
        Inl e \<Rightarrow> Inl e
      | Inr final_state \<Rightarrow>
          Inr \<lparr>out_detailed_report =
                 (case final_ranking final_state of
                    None \<Rightarrow> ''No report generated''
                  | Some r \<Rightarrow> detailed_report r),
               out_structured_output =
                 (case final_ranking final_state of
                    None \<Rightarrow> JObj []
                  | Some r \<Rightarrow> structured_output r),
               out_resume_analyses = resume_analyses final_state,
               out_linkedin_analyses = linkedin_analyses final_state,
               out_cover_letter_analyses = cover_letter_analyses final_state,
               out_job_matches = job_matches final_state\<rparr>)"

section \<open>Notions used by the statements\<close>

text \<open>The id of an enumerated candidate.\<close>

definition id_of :: "nat \<times> candidate \<Rightarrow> string" where
  "id_of ic = candidate_id (snd ic) (fst ic)"

text \<open>The ids under which the steps store the candidates, in input order.\<close>

definition candidate_ids :: "candidate list \<Rightarrow> string list" where
  "candidate_ids cands = map id_of (enumerate 0 cands)"

text \<open>No later candidate of the list has the id of the candidate at position \<open>i\<close>.\<close>

definition last_with_id :: "candidate list \<Rightarrow> nat \<Rightarrow> bool" where
  "last_with_id cands i =
     (i < length cands \<and>
      candidate_ids cands ! i \<notin> set (drop (Suc i) (candidate_ids cands)))"

text \<open>
  The four steps that loop over the candidates, the body of the loop of each, and
  the dictionary each returns.
\<close>

definition per_candidate_steps :: "node list" where
  "per_candidate_steps = [ResumeAnalyzer, LinkedInAnalyzer, CoverLetterAnalyzer, JobMatcher]"

fun node_body ::
    "node \<Rightarrow> env \<Rightarrow> state \<Rightarrow> analysis_dict \<Rightarrow> nat \<times> candidate \<Rightarrow> exn + analysis_dict" where
  "node_body ResumeAnalyzer env st = analyze_resume_body env"
| "node_body LinkedInAnalyzer env st = analyze_linkedin_body env"
| "node_body CoverLetterAnalyzer env st = analyze_cover_letter_body env"
| "node_body JobMatcher env st = match_candidates_body env st"
| "node_body FinalRanker env st = (\<lambda>acc ic. Inr acc)"
| "node_body supervisor env st = (\<lambda>acc ic. Inr acc)"

fun node_dict :: "node \<Rightarrow> update \<Rightarrow> analysis_dict option" where
  "node_dict ResumeAnalyzer u = upd_resume_analyses u"
| "node_dict LinkedInAnalyzer u = upd_linkedin_analyses u"
| "node_dict CoverLetterAnalyzer u = upd_cover_letter_analyses u"
| "node_dict JobMatcher u = upd_job_matches u"
| "node_dict FinalRanker u = None"
| "node_dict supervisor u = None"

text \<open>
  The value that a loop body stores for one candidate, read off a run of the body on
  the empty dictionary.
\<close>

definition stored_value ::
    "(analysis_dict \<Rightarrow> nat \<times> candidate \<Rightarrow> exn + analysis_dict) \<Rightarrow> nat \<times> candidate \<Rightarrow> analysis" where
  "stored_value body ic =
     (case body [] ic of
        Inr ((k, v) # rest) \<Rightarrow> v
      | _ \<Rightarrow> Text [])"

text \<open>The writes of a loop whose body stores one value per element, in order.\<close>

definition store_all ::
    "('a \<Rightarrow> string) \<Rightarrow> ('a \<Rightarrow> analysis) \<Rightarrow> analysis_dict \<Rightarrow> 'a list \<Rightarrow> analysis_dict" where
  "store_all key val acc xs = foldl (\<lambda>a x. AList.update (key x) (val x) a) acc xs"

text \<open>
  The exception, if any, that the \<^verbatim>\<open>try\<close> block of a step raises for one candidate
  (from the extraction or from the model call), and the string that the \<^verbatim>\<open>except\<close>
  clauses of the step store for it.
\<close>

fun candidate_failure :: "node \<Rightarrow> env \<Rightarrow> state \<Rightarrow> nat \<times> candidate \<Rightarrow> exn option" where
  "candidate_failure ResumeAnalyzer env st (idx, c) =
     (if falsy (resume_path c) then None
      else case resume_attempt env (the (resume_path c)) of
             Inl e \<Rightarrow> Some e | Inr a \<Rightarrow> None)"
| "candidate_failure LinkedInAnalyzer env st (idx, c) =
     (if falsy (linkedin_url c) then None
      else case linkedin_attempt env (the (linkedin_url c)) of
             Inl e \<Rightarrow> Some e | Inr a \<Rightarrow> None)"
| "candidate_failure CoverLetterAnalyzer env st (idx, c) =
     (if falsy (cover_letter_path c) then None
      else case cover_letter_attempt env (the (cover_letter_path c)) of
             Inl e \<Rightarrow> Some e | Inr a \<Rightarrow> None)"
| "candidate_failure JobMatcher env st (idx, c) =
     (case match_attempt env st (candidate_id c idx) of
        Inl e \<Rightarrow> Some e | Inr a \<Rightarrow> None)"
| "candidate_failure FinalRanker env st (idx, c) = None"
| "candidate_failure supervisor env st (idx, c) = None"

fun failure_text :: "node \<Rightarrow> exn \<Rightarrow> string" where
  "failure_text ResumeAnalyzer e = ''Error analyzing resume: '' @ exn_str e"
| "failure_text LinkedInAnalyzer e = ''Error analyzing LinkedIn: '' @ exn_str e"
| "failure_text CoverLetterAnalyzer e =
     (case e of
        FileNotFoundError m \<Rightarrow> ''Cover letter file not found''
      | _ \<Rightarrow> ''Error analyzing cover letter: '' @ exn_str e)"
| "failure_text JobMatcher e = ''Error in job matching: '' @ exn_str e"
| "failure_text FinalRanker e = ''Final Ranker: Error - '' @ exn_str e"
| "failure_text supervisor e = exn_str e"


text \<open>
  The transition rule in the words of the specification: the first step, in the
  fixed order, whose completion marker is absent; terminate when none is.
\<close>

definition spec_next_step :: "string set \<Rightarrow> string" where
  "spec_next_step done =
     (if ''ResumeAnalyzer'' \<notin> done then ''ResumeAnalyzer''
      else if ''LinkedInAnalyzer'' \<notin> done then ''LinkedInAnalyzer''
      else if ''CoverLetterAnalyzer'' \<notin> done then ''CoverLetterAnalyzer''
      else if ''JobMatcher'' \<notin> done then ''JobMatcher''
      else if ''FinalRanker'' \<notin> done then ''FinalRanker''
      else ''FINISH'')"

text \<open>
  Every per-candidate step that has left its completion marker in the history has one
  entry per candidate in its dictionary, under the ids of the candidates in input
  order.
\<close>

definition maps_complete :: "state \<Rightarrow> bool" where
  "maps_complete st =
     ((''ResumeAnalyzer'' \<in> set (map msg_name (messages st)) \<longrightarrow>
         map fst (resume_analyses st) = candidate_ids (candidates st)) \<and>
      (''LinkedInAnalyzer'' \<in> set (map msg_name (messages st)) \<longrightarrow>
         map fst (linkedin_analyses st) = candidate_ids (candidates st)) \<and>
      (''CoverLetterAnalyzer'' \<in> set (map msg_name (messages st)) \<longrightarrow>
         map fst (cover_letter_analyses st) = candidate_ids (candidates st)) \<and>
      (''JobMatcher'' \<in> set (map msg_name (messages st)) \<longrightarrow>
         map fst (job_matches st) = candidate_ids (candidates st)))"

text \<open>The texts of the pages whose extraction succeeded and is not blank.\<close>

fun extracted_texts :: "(exn + string) list \<Rightarrow> string list" where
  "extracted_texts [] = []"
| "extracted_texts (Inl e # pages) = extracted_texts pages"
| "extracted_texts (Inr t # pages) =
     (if strip t \<noteq> [] then t # extracted_texts pages else extracted_texts pages)"

section \<open>Concrete inputs\<close>

definition sample_reply :: ai_message where
  "sample_reply = \<lparr>reply_content = ''Strong profile'', reply_str = ''content=Strong profile''\<rparr>"

text \<open>
  A world in which the model answers every prompt, the routing call follows the
  workflow rules, \<^verbatim>\<open>cv.pdf\<close> has a page that cannot be read between two readable
  pages, \<^verbatim>\<open>scan.pdf\<close> has one blank page, and no reply parses as JSON.
\<close>

definition sample_env :: env where
  "sample_env =
     \<lparr>llm_invoke = (\<lambda>prompt. Inr sample_reply),
      route_invoke = (\<lambda>msgs. Inr (workflow_rules (map msg_name msgs))),
      path_exists = (\<lambda>p. p = ''cv.pdf'' \<or> p = ''scan.pdf''),
      pdf_reader =
        (\<lambda>p. if p = ''cv.pdf''
              then Inr [Inr ''Page one'', Inl (Exception ''broken page''), Inr ''Page three'']
              else Inr [Inr ''  '']),
      urlparse =
        (\<lambda>s. if startswith s ''https://'' then Inr (''https'', ''www.linkedin.com'')
              else Inr ([], [])),
      web_load = (\<lambda>classes url. Inr [''Profile'', ''Experience'']),
      json_loads = (\<lambda>s. Inl (JSONDecodeError ''Expecting value'')),
      json_repr = (\<lambda>j. ''{}'')\<rparr>"

text \<open>The same world with a model client that fails on every call.\<close>

definition failing_env :: env where
  "failing_env = sample_env\<lparr>llm_invoke := (\<lambda>prompt. Inl (Exception ''connection refused''))\<rparr>"


definition alice :: candidate where
  "alice = \<lparr>cand_id = Some ''alice'', resume_path = Some ''cv.pdf'',
            linkedin_url = Some ''https://www.linkedin.com/in/alice'',
            cover_letter_path = Some ''missing.pdf''\<rparr>"

definition bob :: candidate where
  "bob = \<lparr>cand_id = None, resume_path = None, linkedin_url = Some ''Engineer'',
          cover_letter_path = None\<rparr>"

definition carol :: candidate where
  "carol = \<lparr>cand_id = Some ''carol'', resume_path = Some ''scan.pdf'',
            linkedin_url = None, cover_letter_path = Some ''scan.pdf''\<rparr>"

text \<open>A second record with the id of \<open>alice\<close> and no document.\<close>

definition alice_again :: candidate where
  "alice_again = \<lparr>cand_id = Some ''alice'', resume_path = None, linkedin_url = None,
                  cover_letter_path = None\<rparr>"

text \<open>The state at the start of a run over \<open>alice\<close> and \<open>bob\<close>.\<close>

definition sample_state :: state where
  "sample_state = initial_state ''Python developer'' [alice, bob]"

text \<open>Runs over two records that share an id, and over \<open>carol\<close> alone.\<close>

definition dup_state :: state where
  "dup_state = initial_state ''Python developer'' [alice, alice_again]"

definition scan_state :: state where
  "scan_state = initial_state ''Python developer'' [carol]"

text \<open>The same world with a routing call that answers \<^verbatim>\<open>JobMatcher\<close> whatever the history.\<close>

definition jump_env :: env where
  "jump_env = sample_env\<lparr>route_invoke := (\<lambda>msgs. Inr ''JobMatcher'')\<rparr>"

text \<open>
  A reply whose fenced text is 200000 opening brackets, and a world in which
  \<^verbatim>\<open>json.loads\<close> exceeds the recursion limit on that text: it raises
  \<^verbatim>\<open>RecursionError\<close>, which is not a \<^verbatim>\<open>JSONDecodeError\<close>.
\<close>

definition deep_text :: string where
  "deep_text = replicate 200000 (CHR ''['')"

definition deep_head :: string where
  "deep_head = ''content='' @ [CHR 0x27]"

definition deep_tail :: string where
  "deep_tail = [CHR 0x27] @ '' additional_kwargs={}''"

definition deep_reply :: ai_message where
  "deep_reply =
     \<lparr>reply_content = ''```json'' @ deep_text @ ''```'',
      reply_str = deep_head @ ''```json'' @ deep_text @ ''```'' @ deep_tail\<rparr>"

definition recursion_error :: exn where
  "recursion_error =
     Exception ''maximum recursion depth exceeded while decoding a JSON array from a unicode string''"

definition deep_env :: env where
  "deep_env =
     sample_env
       \<lparr>llm_invoke := (\<lambda>prompt. Inr deep_reply),
        json_loads := (\<lambda>s. if s = deep_text then Inl recursion_error
                             else Inl (JSONDecodeError ''Expecting value''))\<rparr>"

text \<open>A candidate whose LinkedIn reference is a plain text that starts with \<^verbatim>\<open>Error\<close>.\<close>

definition erin :: candidate where
  "erin = \<lparr>cand_id = Some ''erin'', resume_path = None,
           linkedin_url = Some ''Error budgets and incident response lead'',
           cover_letter_path = None\<rparr>"

definition erin_state :: state where
  "erin_state = initial_state ''Python developer'' [erin]"

section \<open>Document extractors: properties\<close>

lemma page_loop_extracted: "page_loop pages acc = acc @ extracted_texts pages"
  by (induction pages arbitrary: acc rule: extracted_texts.induct) auto

lemma dropWhile_all_iff: "(\<forall>c\<in>set (dropWhile P s). P c) \<longleftrightarrow> dropWhile P s = []"
proof
  assume a: "\<forall>c\<in>set (dropWhile P s). P c"
  show "dropWhile P s = []"
  proof (rule ccontr)
    assume n: "dropWhile P s \<noteq> []"
    then have "\<not> P (hd (dropWhile P s))" by (rule hd_dropWhile)
    moreover from n have "hd (dropWhile P s) \<in> set (dropWhile P s)" by simp
    ultimately show False using a by blast
  qed
next
  assume "dropWhile P s = []"
  then have "set (dropWhile P s) = {}" by (simp only: list.set)
  then show "\<forall>c\<in>set (dropWhile P s). P c" by (simp only: ball_empty)
qed

lemma strip_empty_iff: "strip s = [] \<longleftrightarrow> (\<forall>c\<in>set s. is_space c)"
proof -
  have "strip s = [] \<longleftrightarrow> dropWhile is_space (rev (dropWhile is_space s)) = []"
    by (simp add: strip_def)
  also have "\<dots> \<longleftrightarrow> (\<forall>c\<in>set (dropWhile is_space s). is_space c)"
    by (simp only: dropWhile_eq_Nil_conv set_rev)
  also have "\<dots> \<longleftrightarrow> dropWhile is_space s = []"
    by (rule dropWhile_all_iff)
  also have "\<dots> \<longleftrightarrow> (\<forall>c\<in>set s. is_space c)"
    by (simp only: dropWhile_eq_Nil_conv)
  finally show ?thesis .
qed

lemma set_join_superset: "x \<in> set xs \<Longrightarrow> set x \<subseteq> set (join sep xs)"
  by (induction sep xs rule: join.induct) auto

lemma extracted_texts_not_blank: "t \<in> set (extracted_texts pages) \<Longrightarrow> strip t \<noteq> []"
  by (induction pages rule: extracted_texts.induct) (auto split: if_splits)

lemma join_extracted_blank:
  assumes "strip (join sep (extracted_texts pages)) = []"
  shows "join sep (extracted_texts pages) = []"
proof (cases "extracted_texts pages")
  case Nil
  then show ?thesis by simp
next
  case (Cons t ts)
  then have t: "t \<in> set (extracted_texts pages)" by simp
  then have "strip t \<noteq> []" by (rule extracted_texts_not_blank)
  then obtain c where "c \<in> set t" "\<not> is_space c" by (auto simp: strip_empty_iff)
  moreover have "set t \<subseteq> set (join sep (extracted_texts pages))"
    using t by (rule set_join_superset)
  ultimately show ?thesis using assms by (auto simp: strip_empty_iff)
qed

lemma parse_pdf_body_pages:
  "path_exists env p \<Longrightarrow> pdf_reader env p = Inr pages \<Longrightarrow>
   parse_pdf_body env p = Inr (join ''\<newline>\<newline>'' (extracted_texts pages))"
  using join_extracted_blank [of "''\<newline>\<newline>''" pages]
  by (auto simp add: parse_pdf_body_def page_loop_extracted Let_def)

text \<open>
  Claim C6, as the code has it. \<^verbatim>\<open>parse_pdf\<close> returns a text or raises. A file
  that does not exist raises \<^verbatim>\<open>FileNotFoundError\<close>, and so does a reader that raises it;
  any other failure of the reader raises a plain \<^verbatim>\<open>Exception\<close> whose text starts with
  \<^verbatim>\<open>Error parsing PDF: \<close>. When the reader opens the file, a page whose extraction
  fails is skipped inside the loop and the function returns, without raising, the
  texts of the pages that were extracted and are not blank, joined by two line feeds
  (the empty text when there is none).
\<close>

theorem parse_pdf_outcomes:
  "(\<not> path_exists env p \<longrightarrow>
      parse_pdf env p = Inl (FileNotFoundError (''PDF file not found: '' @ p))) \<and>
   (\<forall>m. path_exists env p \<and> pdf_reader env p = Inl (FileNotFoundError m) \<longrightarrow>
      parse_pdf env p = Inl (FileNotFoundError m)) \<and>
   (\<forall>e. path_exists env p \<and> pdf_reader env p = Inl e \<and> (\<forall>m. e \<noteq> FileNotFoundError m) \<longrightarrow>
      parse_pdf env p = Inl (Exception (''Error parsing PDF: '' @ exn_str e))) \<and>
   (\<forall>pages. path_exists env p \<and> pdf_reader env p = Inr pages \<longrightarrow>
      parse_pdf env p = Inr (join ''\<newline>\<newline>'' (extracted_texts pages)))"
proof (intro conjI allI impI)
  assume "\<not> path_exists env p"
  then show "parse_pdf env p = Inl (FileNotFoundError (''PDF file not found: '' @ p))"
    by (simp add: parse_pdf_def parse_pdf_body_def try_except_def)
next
  fix m assume "path_exists env p \<and> pdf_reader env p = Inl (FileNotFoundError m)"
  then show "parse_pdf env p = Inl (FileNotFoundError m)"
    by (simp add: parse_pdf_def parse_pdf_body_def try_except_def)
next
  fix e assume "path_exists env p \<and> pdf_reader env p = Inl e \<and> (\<forall>m. e \<noteq> FileNotFoundError m)"
  then show "parse_pdf env p = Inl (Exception (''Error parsing PDF: '' @ exn_str e))"
    by (cases e) (simp_all add: parse_pdf_def parse_pdf_body_def try_except_def)
next
  fix pages assume "path_exists env p \<and> pdf_reader env p = Inr pages"
  then show "parse_pdf env p = Inr (join ''\<newline>\<newline>'' (extracted_texts pages))"
    by (simp add: parse_pdf_def try_except_def parse_pdf_body_pages)
qed

text \<open>
  Claim C6 as stated fails: on \<^verbatim>\<open>cv.pdf\<close> the extraction of the second page raises,
  and \<^verbatim>\<open>parse_pdf\<close> still returns the text of the two other pages.
\<close>

theorem parse_pdf_skips_failed_page:
  "pdf_reader sample_env ''cv.pdf'' =
     Inr [Inr ''Page one'', Inl (Exception ''broken page''), Inr ''Page three''] \<and>
   parse_pdf sample_env ''cv.pdf'' = Inr ''Page one\<newline>\<newline>Page three''"
  by (simp add: parse_pdf_def parse_pdf_body_def try_except_def sample_env_def strip_def is_space_def)

text \<open>The statement of C6 at two concrete paths, one present and one missing.\<close>

theorem parse_pdf_outcomes_witness:
  "path_exists sample_env ''cv.pdf'' \<and>
   parse_pdf sample_env ''cv.pdf'' = Inr ''Page one\<newline>\<newline>Page three'' \<and>
   \<not> path_exists sample_env ''missing.pdf'' \<and>
   parse_pdf sample_env ''missing.pdf'' = Inl (FileNotFoundError ''PDF file not found: missing.pdf'')"
  using parse_pdf_outcomes [of sample_env "''cv.pdf''"] parse_pdf_outcomes [of sample_env "''missing.pdf''"]
  by (simp add: sample_env_def strip_def is_space_def)

text \<open>
  Claim C8. \<^verbatim>\<open>scrape_linkedin\<close> never raises. When the input has a scheme and a network
  location the page is loaded with the fixed list of CSS classes and the contents of
  the documents are joined; otherwise the input is returned unchanged; a failure of
  the parsing of the URL or of the loading is returned as a string that starts with
  \<^verbatim>\<open>Error accessing LinkedIn profile: \<close>.
\<close>

theorem scrape_linkedin_never_raises:
  "\<exists>t. scrape_linkedin env s = Inr t \<and>
     (\<forall>scheme netloc. urlparse env s = Inr (scheme, netloc) \<longrightarrow>
        (if scheme \<noteq> [] \<and> netloc \<noteq> []
         then (case web_load env linkedin_classes s of
                 Inr docs \<Rightarrow> t = join ''\<newline>\<newline>'' docs
               | Inl e \<Rightarrow> t = ''Error accessing LinkedIn profile: '' @ exn_str e)
         else t = s)) \<and>
     (\<forall>e. urlparse env s = Inl e \<longrightarrow> t = ''Error accessing LinkedIn profile: '' @ exn_str e)"
  by (auto simp: scrape_linkedin_def try_except_def split: sum.splits prod.splits)

text \<open>The statement of C8 at a URL and at a plain text.\<close>

theorem scrape_linkedin_never_raises_witness:
  "scrape_linkedin sample_env ''https://www.linkedin.com/in/alice'' = Inr ''Profile\<newline>\<newline>Experience'' \<and>
   scrape_linkedin sample_env ''Engineer'' = Inr ''Engineer''"
  using scrape_linkedin_never_raises [of sample_env "''https://www.linkedin.com/in/alice''"]
    scrape_linkedin_never_raises [of sample_env "''Engineer''"]
  by (simp add: sample_env_def startswith_def)

section \<open>Final ranking: properties\<close>

lemma split_from_nonempty: "split_from sep cur s \<noteq> []"
  by (induction sep cur s rule: split_from.induct) auto

lemma split_from_two: "contains s sep \<Longrightarrow> sep \<noteq> [] \<Longrightarrow> 2 \<le> length (split_from sep cur s)"
proof (induction sep cur s rule: split_from.induct)
  case (1 sep cur)
  then show ?case by simp
next
  case (2 sep cur c cs)
  show ?case
  proof (cases "startswith (c # cs) sep")
    case True
    have "1 \<le> length (split_from sep [] (drop (length sep - 1) cs))"
      using split_from_nonempty [of sep "[]" "drop (length sep - 1) cs"]
      by (cases "split_from sep [] (drop (length sep - 1) cs)") simp_all
    with True show ?thesis by simp
  next
    case False
    with 2 show ?thesis by simp
  qed
qed

lemma index_split_0: "\<exists>y. index (split x sep) 0 = Inr y"
proof -
  have "split_from sep [] x \<noteq> []" by (rule split_from_nonempty)
  then have "0 < length (split x sep)" by (simp add: split_def)
  then show ?thesis by (simp add: index_def)
qed

lemma index_split_1:
  assumes "contains x sep" and "sep \<noteq> []"
  shows "\<exists>y. index (split x sep) 1 = Inr y"
proof -
  have "2 \<le> length (split_from sep [] x)" using assms by (rule split_from_two)
  then have "1 < length (split x sep)" by (simp add: split_def)
  then show ?thesis by (simp add: index_def)
qed

lemma fence_total:
  assumes "contains s sep" and "sep \<noteq> []"
  shows "\<exists>t. (case index (split s sep) 1 of
           Inl e \<Rightarrow> Inl e
         | Inr part \<Rightarrow>
             (case index (split part ''```'') 0 of
                Inl e \<Rightarrow> Inl e
              | Inr inner \<Rightarrow> Inr (strip inner))) = (Inr t :: exn + string)"
proof -
  obtain y where y: "index (split s sep) 1 = Inr y" using index_split_1 [OF assms] by blast
  obtain z where z: "index (split y ''```'') 0 = Inr z" using index_split_0 by blast
  show ?thesis by (simp only: y z sum.case) blast
qed

lemma extract_json_total: "\<exists>t. extract_json s = Inr t"
proof (cases "contains s ''```json''")
  case True
  have "''```json'' \<noteq> []" by simp
  from fence_total [OF True this] show ?thesis
    unfolding extract_json_def by (simp only: True if_True)
next
  case False
  show ?thesis
  proof (cases "contains s ''```''")
    case True
    have "''```'' \<noteq> []" by simp
    from fence_total [OF True this] show ?thesis
      unfolding extract_json_def by (simp only: True False if_True if_False)
  next
    case f2: False
    show ?thesis unfolding extract_json_def by (simp only: False f2 if_False) blast
  qed
qed



lemma candidates_sample_state: "candidates sample_state = [alice, bob]"
  by (simp add: sample_state_def initial_state_def)

lemma bob_id: "candidate_id bob (Suc 0) = ''candidate_1''"
  by (simp add: candidate_id_def bob_def string_of_nat.simps digit_char_def)

lemma alice_id: "candidate_id alice n = ''alice''"
  by (simp add: candidate_id_def alice_def)



lemma rank_candidates_total:
  "rank_candidates env st =
     (case rank_candidates_try env st of
        Inr u \<Rightarrow> Inr u
      | Inl e \<Rightarrow> Inr (no_update\<lparr>upd_messages :=
                   [HumanMessage (''Final Ranker: Error - '' @ exn_str e) ''FinalRanker''],
                 upd_final_ranking := Some (error_ranking e)\<rparr>))"
  by (simp add: rank_candidates_def try_except_def split: sum.splits)

lemma rank_candidates_try_shape:
  "rank_candidates_try env st = Inr u \<Longrightarrow>
     map msg_name (upd_messages u) = [''FinalRanker''] \<and> (\<exists>fr. upd_final_ranking u = Some fr)"
  by (auto simp: rank_candidates_try_def HumanMessage_def no_update_def split: sum.splits)

text \<open>
  Claim C7. The final-rank step never raises, whatever the model client and the
  other collaborators do: it returns an update with the message named
  \<^verbatim>\<open>FinalRanker\<close> and a final ranking. Whenever the \<^verbatim>\<open>try\<close> block raises, the ranking
  is the error-shaped one (the error text as detailed report, the error object as
  structured output); a failing first model call is such a raise.
\<close>

theorem rank_candidates_never_raises:
  "\<exists>u fr. rank_candidates env st = Inr u \<and>
      map msg_name (upd_messages u) = [''FinalRanker''] \<and>
      upd_final_ranking u = Some fr \<and>
      (\<forall>e. rank_candidates_try env st = Inl e \<longrightarrow>
         detailed_report fr = ''Error generating ranking: '' @ exn_str e \<and>
         structured_output fr = JObj [(''error'', JStr (exn_str e))] \<and>
         msg_content (hd (upd_messages u)) = ''Final Ranker: Error - '' @ exn_str e) \<and>
      (\<forall>e. llm_invoke env (ranking_prompt (job_offer st) (all_candidates_text st)) = Inl e \<longrightarrow>
         rank_candidates_try env st = Inl e)"
proof (cases "rank_candidates_try env st")
  case (Inl e)
  then show ?thesis
    by (auto simp: rank_candidates_total HumanMessage_def no_update_def error_ranking_def
        rank_candidates_try_def split: sum.splits)
next
  case (Inr u)
  with rank_candidates_try_shape [OF Inr] show ?thesis
    by (auto simp: rank_candidates_total rank_candidates_try_def split: sum.splits)
qed

text \<open>The statement of C7 with a model client that fails on every call.\<close>

theorem rank_candidates_never_raises_witness:
  "llm_invoke failing_env (ranking_prompt (job_offer sample_state) (all_candidates_text sample_state))
     = Inl (Exception ''connection refused'') \<and>
   (\<exists>u fr. rank_candidates failing_env sample_state = Inr u \<and>
      map msg_name (upd_messages u) = [''FinalRanker''] \<and>
      upd_final_ranking u = Some fr \<and>
      detailed_report fr = ''Error generating ranking: connection refused'' \<and>
      structured_output fr = JObj [(''error'', JStr ''connection refused'')])"
proof -
  have h: "llm_invoke failing_env (ranking_prompt (job_offer sample_state) (all_candidates_text sample_state))
     = Inl (Exception ''connection refused'')" by (simp add: failing_env_def)
  from rank_candidates_never_raises [of failing_env sample_state] h
  show ?thesis by fastforce
qed

section \<open>Per-candidate steps: properties\<close>

subsection \<open>Dictionaries written by a loop\<close>

lemma update_absent: "k \<notin> fst ` set al \<Longrightarrow> AList.update k v al = al @ [(k, v)]"
  by (induction al) auto

lemma store_all_Nil [simp]: "store_all key val acc [] = acc"
  by (simp add: store_all_def)

lemma store_all_Cons [simp]:
  "store_all key val acc (x # xs) = store_all key val (AList.update (key x) (val x) acc) xs"
  by (simp add: store_all_def)

lemma store_all_append:
  "store_all key val acc (xs @ ys) = store_all key val (store_all key val acc xs) ys"
  by (simp add: store_all_def)

lemma for_each_store_all:
  assumes "\<And>acc x. body acc x = Inr (AList.update (key x) (val x) acc)"
  shows "for_each body xs acc = Inr (store_all key val acc xs)"
  by (induction xs arbitrary: acc) (simp_all add: assms)

lemma store_all_keys:
  "fst ` set (store_all key val acc xs) = fst ` set acc \<union> key ` set xs"
proof (induction xs arbitrary: acc)
  case Nil
  then show ?case by simp
next
  case (Cons x xs)
  have "fst ` set (AList.update (key x) (val x) acc) = insert (key x) (fst ` set acc)"
    using dom_update [of "key x" "val x" acc] by (simp add: dom_map_of_conv_image_fst)
  with Cons show ?case by auto
qed

lemma store_all_distinct:
  "distinct (map fst acc) \<Longrightarrow> distinct (map fst (store_all key val acc xs))"
  by (induction xs arbitrary: acc) (simp_all add: distinct_update)

lemma store_all_fresh:
  "distinct (map key xs) \<Longrightarrow> key ` set xs \<inter> fst ` set acc = {} \<Longrightarrow>
   store_all key val acc xs = acc @ map (\<lambda>x. (key x, val x)) xs"
proof (induction xs arbitrary: acc)
  case Nil
  then show ?case by simp
next
  case (Cons x xs)
  from Cons.prems have fresh: "key x \<notin> fst ` set acc" by auto
  then have u: "AList.update (key x) (val x) acc = acc @ [(key x, val x)]"
    by (rule update_absent)
  have "key ` set xs \<inter> fst ` set (acc @ [(key x, val x)]) = {}"
    using Cons.prems by auto
  moreover have "distinct (map key xs)" using Cons.prems by simp
  ultimately have "store_all key val (acc @ [(key x, val x)]) xs =
      (acc @ [(key x, val x)]) @ map (\<lambda>x. (key x, val x)) xs"
    by (rule Cons.IH [rotated])
  with u show ?case by simp
qed

lemma store_all_other:
  "k \<notin> key ` set xs \<Longrightarrow> map_of (store_all key val acc xs) k = map_of acc k"
  by (induction xs arbitrary: acc) (auto simp: update_conv')

lemma store_all_last_wins:
  assumes "i < length xs" and "key (xs ! i) \<notin> key ` set (drop (Suc i) xs)"
  shows "map_of (store_all key val acc xs) (key (xs ! i)) = Some (val (xs ! i))"
proof -
  have xs: "xs = take i xs @ xs ! i # drop (Suc i) xs"
    using assms(1) by (simp add: id_take_nth_drop)
  have "store_all key val acc xs =
      store_all key val (store_all key val acc (take i xs)) (xs ! i # drop (Suc i) xs)"
    by (subst xs) (rule store_all_append)
  then have "map_of (store_all key val acc xs) (key (xs ! i)) =
      map_of (AList.update (key (xs ! i)) (val (xs ! i)) (store_all key val acc (take i xs)))
        (key (xs ! i))"
    using assms(2) by (simp add: store_all_other)
  then show ?thesis by (simp add: update_conv')
qed

lemma store_all_length:
  "length (store_all key val [] xs) = card (key ` set xs)"
proof -
  have "distinct (map fst (store_all key val [] xs))"
    by (rule store_all_distinct) simp
  then have "card (set (map fst (store_all key val [] xs))) = length (map fst (store_all key val [] xs))"
    by (rule distinct_card)
  then show ?thesis using store_all_keys [of key val "[]" xs] by simp
qed



subsection \<open>The four loops\<close>

lemma analyze_resume_body_update:
  "analyze_resume_body env acc ic =
     Inr (AList.update (id_of ic) (stored_value (analyze_resume_body env) ic) acc)"
  by (cases ic)
    (simp add: analyze_resume_body_def stored_value_def id_of_def try_except_def Let_def
      split: sum.splits)

lemma analyze_linkedin_body_update:
  "analyze_linkedin_body env acc ic =
     Inr (AList.update (id_of ic) (stored_value (analyze_linkedin_body env) ic) acc)"
  by (cases ic)
    (simp add: analyze_linkedin_body_def stored_value_def id_of_def try_except_def Let_def
      split: sum.splits)

lemma analyze_cover_letter_body_update:
  "analyze_cover_letter_body env acc ic =
     Inr (AList.update (id_of ic) (stored_value (analyze_cover_letter_body env) ic) acc)"
  by (cases ic)
    (simp add: analyze_cover_letter_body_def stored_value_def id_of_def try_except_def Let_def
      split: sum.splits)

lemma match_candidates_body_update:
  "match_candidates_body env st acc ic =
     Inr (AList.update (id_of ic) (stored_value (match_candidates_body env st) ic) acc)"
  by (cases ic)
    (simp add: match_candidates_body_def stored_value_def id_of_def try_except_def Let_def
      split: sum.splits)

lemma node_body_update:
  "n \<in> set per_candidate_steps \<Longrightarrow>
   node_body n env st acc ic =
     Inr (AList.update (id_of ic) (stored_value (node_body n env st) ic) acc)"
  by (auto simp: per_candidate_steps_def analyze_resume_body_update
      analyze_linkedin_body_update analyze_cover_letter_body_update
      match_candidates_body_update)

text \<open>The dictionary a step builds.\<close>

lemma node_loop:
  "n \<in> set per_candidate_steps \<Longrightarrow>
   for_each (node_body n env st) (enumerate 0 (candidates st)) [] =
     Inr (store_all id_of (stored_value (node_body n env st)) [] (enumerate 0 (candidates st)))"
  by (rule for_each_store_all) (rule node_body_update)

lemma node_fn_returns:
  assumes "n \<in> set per_candidate_steps"
  shows "\<exists>u. node_fn n env st = Inr u \<and>
           map msg_name (upd_messages u) = [node_name n] \<and>
           node_dict n u =
             Some (store_all id_of (stored_value (node_body n env st)) []
                     (enumerate 0 (candidates st))) \<and>
           (\<forall>m. m \<noteq> n \<longrightarrow> node_dict m u = None) \<and>
           upd_final_ranking u = None \<and> upd_next u = None"
proof -
  from assms consider "n = ResumeAnalyzer" | "n = LinkedInAnalyzer"
    | "n = CoverLetterAnalyzer" | "n = JobMatcher"
    by (auto simp: per_candidate_steps_def)
  then show ?thesis
  proof cases
    case 1
    have "\<forall>m. m \<noteq> ResumeAnalyzer \<longrightarrow> node_dict m
       (no_update\<lparr>upd_messages := ms, upd_resume_analyses := Some d\<rparr>) = None" for ms d
      by (rule allI, case_tac m) (simp_all add: no_update_def)
    then show ?thesis
      using node_loop [OF assms, of env st] 1
      by (simp add: analyze_resume_def HumanMessage_def no_update_def)
  next
    case 2
    have "\<forall>m. m \<noteq> LinkedInAnalyzer \<longrightarrow> node_dict m
       (no_update\<lparr>upd_messages := ms, upd_linkedin_analyses := Some d\<rparr>) = None" for ms d
      by (rule allI, case_tac m) (simp_all add: no_update_def)
    then show ?thesis
      using node_loop [OF assms, of env st] 2
      by (simp add: analyze_linkedin_def HumanMessage_def no_update_def)
  next
    case 3
    have "\<forall>m. m \<noteq> CoverLetterAnalyzer \<longrightarrow> node_dict m
       (no_update\<lparr>upd_messages := ms, upd_cover_letter_analyses := Some d\<rparr>) = None" for ms d
      by (rule allI, case_tac m) (simp_all add: no_update_def)
    then show ?thesis
      using node_loop [OF assms, of env st] 3
      by (simp add: analyze_cover_letter_def HumanMessage_def no_update_def)
  next
    case 4
    have "\<forall>m. m \<noteq> JobMatcher \<longrightarrow> node_dict m
       (no_update\<lparr>upd_messages := ms, upd_job_matches := Some d\<rparr>) = None" for ms d
      by (rule allI, case_tac m) (simp_all add: no_update_def)
    then show ?thesis
      using node_loop [OF assms, of env st] 4
      by (simp add: match_candidates_def HumanMessage_def no_update_def)
  qed
qed

lemma ids_enumerate: "map id_of (enumerate 0 cands) = candidate_ids cands"
  by (simp add: candidate_ids_def)

lemma candidate_ids_nth:
  "i < length cands \<Longrightarrow> candidate_ids cands ! i = id_of (i, cands ! i)"
  by (simp add: candidate_ids_def nth_enumerate_eq)

lemma last_with_id_enumerate:
  assumes "last_with_id cands i"
  shows "id_of (enumerate 0 cands ! i) \<notin> id_of ` set (drop (Suc i) (enumerate 0 cands))"
proof -
  from assms have i: "i < length cands"
    and n: "candidate_ids cands ! i \<notin> set (drop (Suc i) (candidate_ids cands))"
    by (simp_all add: last_with_id_def)
  have "id_of ` set (drop (Suc i) (enumerate 0 cands)) = set (drop (Suc i) (candidate_ids cands))"
    by (simp add: candidate_ids_def drop_map)
  with n i show ?thesis by (simp add: candidate_ids_nth nth_enumerate_eq)
qed

text \<open>What the step stores under the id of a candidate that is the last with its id.\<close>

lemma step_dict_last:
  assumes "last_with_id cands i"
  shows "map_of (store_all id_of val [] (enumerate 0 cands)) (candidate_ids cands ! i) =
           Some (val (i, cands ! i))"
proof -
  from assms have i: "i < length cands" by (simp add: last_with_id_def)
  then have i': "i < length (enumerate 0 cands)" by simp
  have "map_of (store_all id_of val [] (enumerate 0 cands)) (id_of (enumerate 0 cands ! i)) =
      Some (val (enumerate 0 cands ! i))"
    using i' last_with_id_enumerate [OF assms] by (rule store_all_last_wins)
  with i show ?thesis by (simp add: candidate_ids_nth nth_enumerate_eq)
qed

lemma step_dict_keys:
  "set (map fst (store_all id_of val [] (enumerate 0 cands))) = set (candidate_ids cands)"
  using store_all_keys [of id_of val "[]" "enumerate 0 cands"]
  by (simp add: candidate_ids_def)

lemma step_dict_distinct_ids:
  assumes "distinct (candidate_ids cands)"
  shows "map fst (store_all id_of val [] (enumerate 0 cands)) = candidate_ids cands"
proof -
  have "store_all id_of val [] (enumerate 0 cands) =
      [] @ map (\<lambda>x. (id_of x, val x)) (enumerate 0 cands)"
    using assms by (intro store_all_fresh) (simp_all add: candidate_ids_def)
  then show ?thesis by (simp add: candidate_ids_def comp_def)
qed

lemma stored_value_alone:
  "n \<in> set per_candidate_steps \<Longrightarrow>
   node_body n env st [] (i, c) = Inr [(candidate_id c i, stored_value (node_body n env st) (i, c))]"
  using node_body_update [of n env st "[]" "(i, c)"] by (simp add: id_of_def)

subsection \<open>The value stored for one candidate\<close>

lemma resume_stored:
  "stored_value (analyze_resume_body env) (i, c) =
     (if falsy (resume_path c) then Text ''No resume provided''
      else case resume_attempt env (the (resume_path c)) of
             Inr a \<Rightarrow> a
           | Inl e \<Rightarrow> Text (''Error analyzing resume: '' @ exn_str e))"
  by (simp add: stored_value_def analyze_resume_body_def try_except_def Let_def
      split: sum.splits)

lemma linkedin_stored:
  "stored_value (analyze_linkedin_body env) (i, c) =
     (if falsy (linkedin_url c) then Text ''No LinkedIn profile provided''
      else case linkedin_attempt env (the (linkedin_url c)) of
             Inr a \<Rightarrow> a
           | Inl e \<Rightarrow> Text (''Error analyzing LinkedIn: '' @ exn_str e))"
  by (simp add: stored_value_def analyze_linkedin_body_def try_except_def Let_def
      split: sum.splits)

lemma cover_letter_stored:
  "stored_value (analyze_cover_letter_body env) (i, c) =
     (if falsy (cover_letter_path c) then Text ''No cover letter provided (optional)''
      else case cover_letter_attempt env (the (cover_letter_path c)) of
             Inr a \<Rightarrow> a
           | Inl e \<Rightarrow> cover_letter_error e)"
  by (simp add: stored_value_def analyze_cover_letter_body_def try_except_def Let_def
      split: sum.splits)

lemma match_stored:
  "stored_value (match_candidates_body env st) (i, c) =
     (case match_attempt env st (candidate_id c i) of
        Inr a \<Rightarrow> a
      | Inl e \<Rightarrow> Text (''Error in job matching: '' @ exn_str e))"
  by (simp add: stored_value_def match_candidates_body_def try_except_def Let_def
      split: sum.splits)

lemma cover_letter_error_text: "cover_letter_error e = Text (failure_text CoverLetterAnalyzer e)"
  by (cases e) (simp_all add: cover_letter_error_def)

lemma failure_stored:
  assumes "n \<in> set per_candidate_steps"
    and "candidate_failure n env st (i, c) = Some e"
  shows "stored_value (node_body n env st) (i, c) = Text (failure_text n e)"
proof -
  from assms(1) consider "n = ResumeAnalyzer" | "n = LinkedInAnalyzer"
    | "n = CoverLetterAnalyzer" | "n = JobMatcher"
    by (auto simp: per_candidate_steps_def)
  then show ?thesis
  proof cases
    case 1
    with assms(2) show ?thesis by (simp add: resume_stored split: if_splits sum.splits)
  next
    case 2
    with assms(2) show ?thesis by (simp add: linkedin_stored split: if_splits sum.splits)
  next
    case 3
    with assms(2) show ?thesis
      by (simp add: cover_letter_stored cover_letter_error_text split: if_splits sum.splits)
  next
    case 4
    with assms(2) show ?thesis by (simp add: match_stored split: if_splits sum.splits)
  qed
qed

text \<open>
  Claim C5. For each of the four per-candidate steps, in every world and every state,
  the step returns normally, the only message of its update carries the name of the
  step, and the keys of its dictionary are the ids of the candidates. Under the id of
  a candidate (the last one with that id) stands the value that the loop body stores
  for this candidate on its own, whatever happens to the other candidates; when the
  \<^verbatim>\<open>try\<close> block of this candidate raises \<open>e\<close>, from the extraction or from the model
  call, that value is the string that the \<^verbatim>\<open>except\<close> clause builds from \<open>e\<close>.
\<close>

theorem per_candidate_failure_is_an_entry:
  assumes "n \<in> set per_candidate_steps"
  shows "\<exists>u d. node_fn n env st = Inr u \<and>
           map msg_name (upd_messages u) = [node_name n] \<and>
           node_dict n u = Some d \<and>
           set (map fst d) = set (candidate_ids (candidates st)) \<and>
           (\<forall>i. last_with_id (candidates st) i \<longrightarrow>
              (\<exists>v. node_body n env st [] (i, candidates st ! i) =
                      Inr [(candidate_ids (candidates st) ! i, v)] \<and>
                    map_of d (candidate_ids (candidates st) ! i) = Some v \<and>
                    (\<forall>e. candidate_failure n env st (i, candidates st ! i) = Some e \<longrightarrow>
                         v = Text (failure_text n e))))"
proof -
  let ?val = "stored_value (node_body n env st)"
  let ?d = "store_all id_of ?val [] (enumerate 0 (candidates st))"
  from node_fn_returns [OF assms, of env st]
  obtain u where u: "node_fn n env st = Inr u" "map msg_name (upd_messages u) = [node_name n]"
    "node_dict n u = Some ?d" by auto
  have keys: "set (map fst ?d) = set (candidate_ids (candidates st))"
    by (rule step_dict_keys)
  have each: "\<exists>v. node_body n env st [] (i, candidates st ! i) =
                      Inr [(candidate_ids (candidates st) ! i, v)] \<and>
                    map_of ?d (candidate_ids (candidates st) ! i) = Some v \<and>
                    (\<forall>e. candidate_failure n env st (i, candidates st ! i) = Some e \<longrightarrow>
                         v = Text (failure_text n e))"
    if l: "last_with_id (candidates st) i" for i
  proof -
    from l have i: "i < length (candidates st)" by (simp add: last_with_id_def)
    have a: "node_body n env st [] (i, candidates st ! i) =
        Inr [(candidate_ids (candidates st) ! i, ?val (i, candidates st ! i))]"
      using stored_value_alone [OF assms, of env st i "candidates st ! i"] i
      by (simp add: candidate_ids_nth id_of_def)
    have b: "map_of ?d (candidate_ids (candidates st) ! i) = Some (?val (i, candidates st ! i))"
      using l by (rule step_dict_last)
    have c: "\<forall>e. candidate_failure n env st (i, candidates st ! i) = Some e \<longrightarrow>
        ?val (i, candidates st ! i) = Text (failure_text n e)"
      using failure_stored [OF assms] by blast
    from a b c show ?thesis by blast
  qed
  from each have all: "\<forall>i. last_with_id (candidates st) i \<longrightarrow>
      (\<exists>v. node_body n env st [] (i, candidates st ! i) =
                      Inr [(candidate_ids (candidates st) ! i, v)] \<and>
                    map_of ?d (candidate_ids (candidates st) ! i) = Some v \<and>
                    (\<forall>e. candidate_failure n env st (i, candidates st ! i) = Some e \<longrightarrow>
                         v = Text (failure_text n e)))" by simp
  show ?thesis
    by (intro exI [of _ u] exI [of _ ?d] conjI u keys all)
qed

lemma single_entry:
  "distinct (map fst d) \<Longrightarrow> map_of d k = Some v \<Longrightarrow> filter (\<lambda>kv. fst kv = k) d = [(k, v)]"
proof (induction d)
  case Nil
  then show ?case by simp
next
  case (Cons p d)
  show ?case
  proof (cases "fst p = k")
    case True
    with Cons.prems have "p = (k, v)" by (cases p) simp
    moreover have "fst p \<notin> fst ` set d" using Cons.prems(1) by simp
    then have "\<forall>kv\<in>set d. fst kv \<noteq> k" by (metis True imageI)
    then have "filter (\<lambda>kv. fst kv = k) d = []" by (simp add: filter_empty_conv)
    ultimately show ?thesis by simp
  next
    case False
    with Cons show ?thesis by (cases p) auto
  qed
qed

lemma digit_char_inj:
  assumes "a < 10" and "b < 10" and "digit_char a = digit_char b"
  shows "a = b"
proof -
  have d: "distinct ''0123456789''" by simp
  have l: "length ''0123456789'' = 10" by simp
  from assms(1,2) l have "a < length ''0123456789''" "b < length ''0123456789''" by simp_all
  with d have "(''0123456789'' ! a = ''0123456789'' ! b) = (a = b)"
    by (rule nth_eq_iff_index_eq)
  with assms(3) show ?thesis by (simp add: digit_char_def)
qed

lemma string_of_nat_small: "n < 10 \<Longrightarrow> string_of_nat n = [digit_char n]"
  by (simp add: string_of_nat.simps)

lemma string_of_nat_large:
  "\<not> n < 10 \<Longrightarrow> string_of_nat n = string_of_nat (n div 10) @ [digit_char (n mod 10)]"
  by (subst string_of_nat.simps) simp

lemma string_of_nat_nonempty: "string_of_nat n \<noteq> []"
  by (cases "n < 10") (simp_all add: string_of_nat_small string_of_nat_large)

lemma string_of_nat_inj: "string_of_nat n = string_of_nat m \<Longrightarrow> n = m"
proof (induction n arbitrary: m rule: string_of_nat.induct)
  case (1 n)
  show ?case
  proof (cases "n < 10")
    case True
    show ?thesis
    proof (cases "m < 10")
      case m: True
      with True "1.prems" show ?thesis
        by (simp add: string_of_nat_small digit_char_inj)
    next
      case m: False
      with True "1.prems" string_of_nat_nonempty [of "m div 10"] show ?thesis
        by (simp add: string_of_nat_small string_of_nat_large)
    qed
  next
    case False
    show ?thesis
    proof (cases "m < 10")
      case m: True
      with False "1.prems" string_of_nat_nonempty [of "n div 10"] show ?thesis
        by (simp add: string_of_nat_small string_of_nat_large)
    next
      case m: False
      with False "1.prems" have e: "string_of_nat (n div 10) = string_of_nat (m div 10)"
        "digit_char (n mod 10) = digit_char (m mod 10)"
        by (simp_all add: string_of_nat_large)
      from "1.IH" [OF False e(1)] have q: "n div 10 = m div 10" .
      have "n mod 10 = m mod 10" using e(2) by (intro digit_char_inj) simp_all
      with q show ?thesis by (metis div_mult_mod_eq)
    qed
  qed
qed

text \<open>Two candidates without an id never share a placeholder.\<close>

lemma placeholders_differ:
  "cand_id c = None \<Longrightarrow> cand_id c' = None \<Longrightarrow> candidate_id c i = candidate_id c' j \<Longrightarrow> i = j"
  by (simp add: candidate_id_def string_of_nat_inj)

text \<open>
  Claim C9. When the candidates at two positions \<open>i < j\<close> have the same id and no later
  candidate has it, every per-candidate step returns a dictionary with a single entry
  under that id, whose value is the one that the loop body stores for the candidate at
  \<open>j\<close>; the dictionary has fewer entries than there are candidates. (Two candidates
  without an id get two different placeholders, since the placeholder is built from
  the position; an id can be shared with a placeholder only when it is written out.)
\<close>

theorem shared_id_last_write_wins:
  assumes "n \<in> set per_candidate_steps"
    and "i < j"
    and "candidate_ids (candidates st) ! i = candidate_ids (candidates st) ! j"
    and "last_with_id (candidates st) j"
  shows "\<exists>u d v. node_fn n env st = Inr u \<and> node_dict n u = Some d \<and>
           node_body n env st [] (j, candidates st ! j) =
             Inr [(candidate_ids (candidates st) ! j, v)] \<and>
           filter (\<lambda>kv. fst kv = candidate_ids (candidates st) ! j) d =
             [(candidate_ids (candidates st) ! j, v)] \<and>
           length d < length (candidates st)"
proof -
  let ?val = "stored_value (node_body n env st)"
  let ?d = "store_all id_of ?val [] (enumerate 0 (candidates st))"
  let ?ids = "candidate_ids (candidates st)"
  from node_fn_returns [OF assms(1), of env st]
  obtain u where u: "node_fn n env st = Inr u" "node_dict n u = Some ?d" by blast
  from assms(4) have j: "j < length (candidates st)" by (simp add: last_with_id_def)
  have a: "node_body n env st [] (j, candidates st ! j) = Inr [(?ids ! j, ?val (j, candidates st ! j))]"
    using stored_value_alone [OF assms(1), of env st j "candidates st ! j"] j
    by (simp add: candidate_ids_nth id_of_def)
  have b: "map_of ?d (?ids ! j) = Some (?val (j, candidates st ! j))"
    using assms(4) by (rule step_dict_last)
  have dist: "distinct (map fst ?d)" by (rule store_all_distinct) simp
  have c: "filter (\<lambda>kv. fst kv = ?ids ! j) ?d = [(?ids ! j, ?val (j, candidates st ! j))]"
    using dist b by (rule single_entry)
  have len_ids: "length ?ids = length (candidates st)" by (simp add: candidate_ids_def)
  have "\<not> distinct ?ids"
  proof
    assume "distinct ?ids"
    moreover have "i < length ?ids" "j < length ?ids" using assms(2) j len_ids by simp_all
    ultimately have "(?ids ! i = ?ids ! j) = (i = j)" by (rule nth_eq_iff_index_eq)
    with assms(2,3) show False by simp
  qed
  then have "card (set ?ids) \<noteq> length ?ids" using card_distinct by blast
  moreover have "card (set ?ids) \<le> length ?ids" by (rule card_length)
  ultimately have "card (set ?ids) < length (candidates st)" using len_ids by simp
  moreover have "length ?d = card (set ?ids)"
    using store_all_length [of id_of ?val "enumerate 0 (candidates st)"]
    by (simp add: candidate_ids_def)
  ultimately have d: "length ?d < length (candidates st)" by simp
  from u a c d show ?thesis by blast
qed

lemma startswith_Error: "startswith (''Error'' @ s) ''Error''"
  by (simp add: startswith_def)




















lemma candidates_dup_state: "candidates dup_state = [alice, alice_again]"
  by (simp add: dup_state_def initial_state_def)

lemma candidates_scan_state: "candidates scan_state = [carol]"
  by (simp add: scan_state_def initial_state_def)

lemma alice_again_id: "candidate_id alice_again n = ''alice''"
  by (simp add: candidate_id_def alice_again_def)

lemma ids_alice_bob: "candidate_ids [alice, bob] = [''alice'', ''candidate_1'']"
  by (simp add: candidate_ids_def id_of_def alice_id bob_id)

lemma ids_alice_twice: "candidate_ids [alice, alice_again] = [''alice'', ''alice'']"
  by (simp add: candidate_ids_def id_of_def alice_id alice_again_id)

lemma ids_sample_state: "candidate_ids (candidates sample_state) = [''alice'', ''candidate_1'']"
  by (simp only: candidates_sample_state ids_alice_bob)

lemma ids_dup_state: "candidate_ids (candidates dup_state) = [''alice'', ''alice'']"
  by (simp only: candidates_dup_state ids_alice_twice)

lemma last_alice: "last_with_id (candidates sample_state) 0"
  by (simp add: last_with_id_def candidates_sample_state ids_alice_bob)

lemma last_dup: "last_with_id (candidates dup_state) 1"
  by (simp add: last_with_id_def candidates_dup_state ids_alice_twice)

text \<open>The statement of C5 for the job-match step, with a model client that always fails.\<close>

theorem per_candidate_failure_is_an_entry_witness:
  "JobMatcher \<in> set per_candidate_steps \<and>
   last_with_id (candidates sample_state) 0 \<and>
   candidate_failure JobMatcher failing_env sample_state (0, candidates sample_state ! 0) =
     Some (Exception ''connection refused'') \<and>
   (\<exists>u d. match_candidates failing_env sample_state = Inr u \<and>
      map msg_name (upd_messages u) = [''JobMatcher''] \<and>
      upd_job_matches u = Some d \<and>
      set (map fst d) = {''alice'', ''candidate_1''} \<and>
      map_of d ''alice'' = Some (Text ''Error in job matching: connection refused''))"
proof -
  have n: "JobMatcher \<in> set per_candidate_steps" by (simp add: per_candidate_steps_def)
  have f: "candidate_failure JobMatcher failing_env sample_state (0, candidates sample_state ! 0) =
     Some (Exception ''connection refused'')"
    by (simp add: candidates_sample_state match_attempt_def failing_env_def)
  from per_candidate_failure_is_an_entry [OF n, of failing_env sample_state]
  obtain u d where u: "node_fn JobMatcher failing_env sample_state = Inr u"
    "map msg_name (upd_messages u) = [node_name JobMatcher]"
    "node_dict JobMatcher u = Some d"
    "set (map fst d) = set (candidate_ids (candidates sample_state))"
    and each: "\<forall>i. last_with_id (candidates sample_state) i \<longrightarrow>
      (\<exists>v. node_body JobMatcher failing_env sample_state [] (i, candidates sample_state ! i) =
              Inr [(candidate_ids (candidates sample_state) ! i, v)] \<and>
            map_of d (candidate_ids (candidates sample_state) ! i) = Some v \<and>
            (\<forall>e. candidate_failure JobMatcher failing_env sample_state
                    (i, candidates sample_state ! i) = Some e \<longrightarrow>
                 v = Text (failure_text JobMatcher e)))"
    by auto
  from each last_alice obtain v where
    v: "map_of d (candidate_ids (candidates sample_state) ! 0) = Some v"
      "\<forall>e. candidate_failure JobMatcher failing_env sample_state
              (0, candidates sample_state ! 0) = Some e \<longrightarrow> v = Text (failure_text JobMatcher e)"
    by blast
  from v(2) f have "v = Text (failure_text JobMatcher (Exception ''connection refused''))" by blast
  with v(1) have "map_of d ''alice'' = Some (Text ''Error in job matching: connection refused'')"
    by (simp add: ids_sample_state)
  with u have "\<exists>u d. match_candidates failing_env sample_state = Inr u \<and>
      map msg_name (upd_messages u) = [''JobMatcher''] \<and>
      upd_job_matches u = Some d \<and>
      set (map fst d) = {''alice'', ''candidate_1''} \<and>
      map_of d ''alice'' = Some (Text ''Error in job matching: connection refused'')"
    by (simp add: ids_sample_state)
  with n last_alice f show ?thesis by blast
qed

text \<open>The statement of C9 for the resume step, over two records with the id \<open>alice\<close>.\<close>

theorem shared_id_last_write_wins_witness:
  "ResumeAnalyzer \<in> set per_candidate_steps \<and> (0::nat) < 1 \<and>
   candidate_ids (candidates dup_state) ! 0 = candidate_ids (candidates dup_state) ! 1 \<and>
   last_with_id (candidates dup_state) 1 \<and>
   (\<exists>u d. analyze_resume sample_env dup_state = Inr u \<and>
      upd_resume_analyses u = Some d \<and>
      filter (\<lambda>kv. fst kv = ''alice'') d = [(''alice'', Text ''No resume provided'')] \<and>
      length d < 2)"
proof -
  have n: "ResumeAnalyzer \<in> set per_candidate_steps" by (simp add: per_candidate_steps_def)
  have lt: "(0::nat) < 1" by simp
  have same: "candidate_ids (candidates dup_state) ! 0 = candidate_ids (candidates dup_state) ! 1"
    by (simp add: ids_dup_state)
  from shared_id_last_write_wins [OF n lt same last_dup, of sample_env]
  obtain u d v where r: "node_fn ResumeAnalyzer sample_env dup_state = Inr u"
    "node_dict ResumeAnalyzer u = Some d"
    "node_body ResumeAnalyzer sample_env dup_state [] (1, candidates dup_state ! 1) =
       Inr [(candidate_ids (candidates dup_state) ! 1, v)]"
    "filter (\<lambda>kv. fst kv = candidate_ids (candidates dup_state) ! 1) d =
       [(candidate_ids (candidates dup_state) ! 1, v)]"
    "length d < length (candidates dup_state)"
    by blast
  from r(3) have "v = Text ''No resume provided''"
    by (simp add: candidates_dup_state ids_alice_twice analyze_resume_body_def alice_again_def
        falsy_def candidate_id_def)
  with r have "\<exists>u d. analyze_resume sample_env dup_state = Inr u \<and>
      upd_resume_analyses u = Some d \<and>
      filter (\<lambda>kv. fst kv = ''alice'') d = [(''alice'', Text ''No resume provided'')] \<and>
      length d < 2"
    by (simp add: candidates_dup_state ids_alice_twice)
  with n lt same last_dup show ?thesis by blast
qed


lemma parse_scan: "parse_pdf sample_env ''scan.pdf'' = Inr []"
  by (simp add: parse_pdf_def parse_pdf_body_def try_except_def sample_env_def strip_def is_space_def)

lemma parse_scan_failing: "parse_pdf failing_env ''scan.pdf'' = Inr []"
  by (simp add: parse_pdf_def parse_pdf_body_def try_except_def sample_env_def failing_env_def
      strip_def is_space_def)

lemma llm_sample: "llm_invoke sample_env p = Inr sample_reply"
  by (simp add: sample_env_def)

lemma llm_failing: "llm_invoke failing_env p = Inl (Exception ''connection refused'')"
  by (simp add: failing_env_def)

lemma carol_id: "candidate_id carol n = ''carol''"
  by (simp add: candidate_id_def carol_def)

text \<open>
  Claim C3 at a failing input. \<^verbatim>\<open>scan.pdf\<close> exists and its only page is blank, so the
  extraction yields the empty text. The cover-letter step stores its sentinel for this
  file and calls no model. The resume step has no such check: it stores the reply of
  the model to a prompt with an empty resume, and with a failing model client it
  stores the error of the model call.
\<close>

theorem resume_step_calls_model_on_empty_text:
  "parse_pdf sample_env ''scan.pdf'' = Inr [] \<and>
   (\<exists>u. analyze_resume sample_env scan_state = Inr u \<and>
        upd_resume_analyses u = Some [(''carol'', Reply sample_reply)]) \<and>
   (\<exists>u. analyze_resume failing_env scan_state = Inr u \<and>
        upd_resume_analyses u =
          Some [(''carol'', Text ''Error analyzing resume: connection refused'')]) \<and>
   (\<exists>u. analyze_cover_letter sample_env scan_state = Inr u \<and>
        upd_cover_letter_analyses u = Some [(''carol'', Text ''Cover letter file is empty'')])"
proof -
  have rp: "resume_path carol = Some ''scan.pdf''" "cover_letter_path carol = Some ''scan.pdf''"
    by (simp_all add: carol_def)
  have a: "analyze_resume_body sample_env [] (0, carol) = Inr [(''carol'', Reply sample_reply)]"
    by (simp add: analyze_resume_body_def carol_id rp falsy_def resume_attempt_def parse_scan
        try_except_def llm_sample)
  have b: "analyze_resume_body failing_env [] (0, carol) =
      Inr [(''carol'', Text ''Error analyzing resume: connection refused'')]"
    by (simp add: analyze_resume_body_def carol_id rp falsy_def resume_attempt_def
        parse_scan_failing try_except_def llm_failing)
  have c: "analyze_cover_letter_body sample_env [] (0, carol) =
      Inr [(''carol'', Text ''Cover letter file is empty'')]"
    by (simp add: analyze_cover_letter_body_def carol_id rp falsy_def cover_letter_attempt_def
        parse_scan try_except_def strip_def)
  show ?thesis
    by (simp add: parse_scan analyze_resume_def analyze_cover_letter_def candidates_scan_state
        a b c no_update_def)
qed


section \<open>Coordinator: properties\<close>

subsection \<open>Routing\<close>

lemma workflow_rules_spec:
  "workflow_rules seen = spec_next_step (set seen \<inter> set members)"
  by (simp add: workflow_rules_def spec_next_step_def members_def)


lemma spec_next_step_option: "spec_next_step M \<in> set options"
  by (simp add: spec_next_step_def options_def members_def)





subsection \<open>Runs of the graph\<close>

lemma apply_update_candidates [simp]: "candidates (apply_update st u) = candidates st"
  by (simp add: apply_update_def)

lemma apply_update_names:
  "map msg_name (messages (apply_update st u)) =
     map msg_name (messages st) @ map msg_name (upd_messages u)"
  by (simp add: apply_update_def)

lemma member_update:
  assumes "n \<in> set per_candidate_steps"
  shows "\<exists>u d. node_fn n env st = Inr u \<and>
           map msg_name (upd_messages u) = [node_name n] \<and>
           map fst d = (if distinct (candidate_ids (candidates st))
                        then candidate_ids (candidates st) else map fst d) \<and>
           upd_resume_analyses u = (if n = ResumeAnalyzer then Some d else None) \<and>
           upd_linkedin_analyses u = (if n = LinkedInAnalyzer then Some d else None) \<and>
           upd_cover_letter_analyses u = (if n = CoverLetterAnalyzer then Some d else None) \<and>
           upd_job_matches u = (if n = JobMatcher then Some d else None) \<and>
           upd_final_ranking u = None \<and> upd_next u = None"
proof -
  let ?d = "store_all id_of (stored_value (node_body n env st)) [] (enumerate 0 (candidates st))"
  from node_fn_returns [OF assms, of env st]
  obtain u where u: "node_fn n env st = Inr u" "map msg_name (upd_messages u) = [node_name n]"
    "node_dict n u = Some ?d" "\<forall>m. m \<noteq> n \<longrightarrow> node_dict m u = None"
    "upd_final_ranking u = None" "upd_next u = None" by auto
  have d: "map fst ?d = (if distinct (candidate_ids (candidates st))
                        then candidate_ids (candidates st) else map fst ?d)"
    by (simp add: step_dict_distinct_ids)
  from assms consider "n = ResumeAnalyzer" | "n = LinkedInAnalyzer"
    | "n = CoverLetterAnalyzer" | "n = JobMatcher"
    by (auto simp: per_candidate_steps_def)
  then have fields: "upd_resume_analyses u = (if n = ResumeAnalyzer then Some ?d else None) \<and>
           upd_linkedin_analyses u = (if n = LinkedInAnalyzer then Some ?d else None) \<and>
           upd_cover_letter_analyses u = (if n = CoverLetterAnalyzer then Some ?d else None) \<and>
           upd_job_matches u = (if n = JobMatcher then Some ?d else None)"
  proof cases
    case 1
    with u(3) u(4) [rule_format, of LinkedInAnalyzer] u(4) [rule_format, of CoverLetterAnalyzer]
      u(4) [rule_format, of JobMatcher] show ?thesis by simp
  next
    case 2
    with u(3) u(4) [rule_format, of ResumeAnalyzer] u(4) [rule_format, of CoverLetterAnalyzer]
      u(4) [rule_format, of JobMatcher] show ?thesis by simp
  next
    case 3
    with u(3) u(4) [rule_format, of LinkedInAnalyzer] u(4) [rule_format, of ResumeAnalyzer]
      u(4) [rule_format, of JobMatcher] show ?thesis by simp
  next
    case 4
    with u(3) u(4) [rule_format, of LinkedInAnalyzer] u(4) [rule_format, of CoverLetterAnalyzer]
      u(4) [rule_format, of ResumeAnalyzer] show ?thesis by simp
  qed
  show ?thesis
    by (rule exI [of _ u], rule exI [of _ ?d]) (use u d fields in blast)
qed

lemma ranker_update:
  "\<exists>u. rank_candidates env st = Inr u \<and>
       map msg_name (upd_messages u) = [''FinalRanker''] \<and>
       upd_resume_analyses u = None \<and> upd_linkedin_analyses u = None \<and>
       upd_cover_letter_analyses u = None \<and> upd_job_matches u = None \<and> upd_next u = None"
proof (cases "rank_candidates_try env st")
  case (Inl e)
  then show ?thesis
    by (simp add: rank_candidates_total HumanMessage_def no_update_def)
next
  case (Inr u)
  then have "upd_resume_analyses u = None \<and> upd_linkedin_analyses u = None \<and>
       upd_cover_letter_analyses u = None \<and> upd_job_matches u = None \<and> upd_next u = None"
    by (auto simp: rank_candidates_try_def no_update_def split: sum.splits)
  with Inr rank_candidates_try_shape [OF Inr] show ?thesis
    by (simp add: rank_candidates_total)
qed

lemma supervisor_update:
  "supervisor_agent env st = Inr u \<Longrightarrow>
     upd_messages u = [] \<and>
     upd_resume_analyses u = None \<and> upd_linkedin_analyses u = None \<and>
     upd_cover_letter_analyses u = None \<and> upd_job_matches u = None"
  by (auto simp: supervisor_agent_def no_update_def split: sum.splits if_splits)

lemma node_cases:
  "n \<in> set per_candidate_steps \<or> n = FinalRanker \<or> n = supervisor"
  by (cases n) (simp_all add: per_candidate_steps_def)

text \<open>One node keeps the invariant.\<close>

lemma node_keeps_maps_complete:
  assumes "node_fn n env st = Inr u" and "distinct (candidate_ids (candidates st))"
    and "maps_complete st"
  shows "maps_complete (apply_update st u)"
proof -
  from node_cases [of n] consider "n \<in> set per_candidate_steps" | "n = FinalRanker" | "n = supervisor"
    by blast
  then show ?thesis
  proof cases
    case 1
    from member_update [OF 1, of env st] assms(1,2)
    obtain d where d: "map msg_name (upd_messages u) = [node_name n]"
      "map fst d = candidate_ids (candidates st)"
      "upd_resume_analyses u = (if n = ResumeAnalyzer then Some d else None)"
      "upd_linkedin_analyses u = (if n = LinkedInAnalyzer then Some d else None)"
      "upd_cover_letter_analyses u = (if n = CoverLetterAnalyzer then Some d else None)"
      "upd_job_matches u = (if n = JobMatcher then Some d else None)"
      by auto
    from 1 consider "n = ResumeAnalyzer" | "n = LinkedInAnalyzer"
      | "n = CoverLetterAnalyzer" | "n = JobMatcher"
      by (auto simp: per_candidate_steps_def)
    then show ?thesis
      using assms(3) d by cases (simp_all add: maps_complete_def apply_update_def)
  next
    case 2
    from ranker_update [of env st] assms(1) 2
    have "map msg_name (upd_messages u) = [''FinalRanker''] \<and>
       upd_resume_analyses u = None \<and> upd_linkedin_analyses u = None \<and>
       upd_cover_letter_analyses u = None \<and> upd_job_matches u = None" by auto
    with assms(3) show ?thesis by (simp add: maps_complete_def apply_update_def)
  next
    case 3
    with assms(1) supervisor_update [of env st u]
    have "upd_messages u = [] \<and>
     upd_resume_analyses u = None \<and> upd_linkedin_analyses u = None \<and>
     upd_cover_letter_analyses u = None \<and> upd_job_matches u = None" by simp
    with assms(3) show ?thesis by (simp add: maps_complete_def apply_update_def)
  qed
qed

lemma run_graph_keeps_maps_complete:
  "run_graph env limit n st = Inr final \<Longrightarrow> distinct (candidate_ids (candidates st)) \<Longrightarrow>
   maps_complete st \<Longrightarrow> maps_complete final \<and> candidates final = candidates st"
proof (induction limit arbitrary: n st)
  case 0
  then show ?case by simp
next
  case (Suc limit)
  from Suc.prems(1) obtain u where u: "node_fn n env st = Inr u"
    by (auto split: sum.splits)
  let ?st = "apply_update st u"
  have inv: "maps_complete ?st" using u Suc.prems(2,3) by (rule node_keeps_maps_complete)
  have c: "candidates ?st = candidates st" by simp
  show ?case
  proof (cases "n = supervisor")
    case True
    show ?thesis
    proof (cases "map_of path_map (next_agent ?st)")
      case None
      with Suc.prems(1) u True show ?thesis by (simp add: Let_def)
    next
      case (Some target)
      show ?thesis
      proof (cases target)
        case None
        with Suc.prems(1) u True Some have "final = ?st" by (simp add: Let_def)
        with inv c show ?thesis by simp
      next
        case (Some n')
        with Suc.prems(1) u True \<open>map_of path_map (next_agent ?st) = Some target\<close>
        have "run_graph env limit n' ?st = Inr final" by (simp add: Let_def)
        from Suc.IH [OF this] Suc.prems(2) inv c show ?thesis by simp
      qed
    qed
  next
    case False
    with Suc.prems(1) u have "run_graph env limit supervisor ?st = Inr final"
      by (simp add: Let_def)
    from Suc.IH [OF this] Suc.prems(2) inv c show ?thesis by simp
  qed
qed

lemma initial_maps_complete: "maps_complete (initial_state offer cands)"
  by (simp add: maps_complete_def initial_state_def HumanMessage_def)

lemma workflow_rules_option: "workflow_rules seen \<in> set options"
  by (simp add: workflow_rules_spec spec_next_step_option)

lemma supervisor_step:
  assumes "\<forall>msgs. route_invoke env msgs = Inr (workflow_rules (map msg_name msgs))"
  shows "supervisor_agent env st =
           Inr (no_update\<lparr>upd_next := Some (workflow_rules (map msg_name (messages st)))\<rparr>)"
  using assms workflow_rules_option by (simp add: supervisor_agent_def)

lemma routed_state:
  "map msg_name (messages (apply_update st (no_update\<lparr>upd_next := Some x\<rparr>))) =
     map msg_name (messages st) \<and>
   next_agent (apply_update st (no_update\<lparr>upd_next := Some x\<rparr>)) = x \<and>
   candidates (apply_update st (no_update\<lparr>upd_next := Some x\<rparr>)) = candidates st"
  by (simp add: apply_update_def no_update_def)

lemma member_returns:
  assumes "n \<noteq> supervisor"
  shows "\<exists>u. node_fn n env st = Inr u \<and> map msg_name (upd_messages u) = [node_name n]"
proof -
  from node_cases [of n] assms consider "n \<in> set per_candidate_steps" | "n = FinalRanker"
    by blast
  then show ?thesis
  proof cases
    case 1
    from node_fn_returns [OF 1, of env st] show ?thesis by auto
  next
    case 2
    with ranker_update [of env st] show ?thesis by auto
  qed
qed

lemma path_map_member: "n \<noteq> supervisor \<Longrightarrow> map_of path_map (node_name n) = Some (Some n)"
  by (cases n) (simp_all add: path_map_def)

text \<open>A routing decision for a member runs the member and comes back to the supervisor.\<close>

lemma round_trip:
  assumes "\<forall>msgs. route_invoke env msgs = Inr (workflow_rules (map msg_name msgs))"
    and "workflow_rules (map msg_name (messages st)) = node_name n" and "n \<noteq> supervisor"
  shows "\<exists>st'. map msg_name (messages st') = map msg_name (messages st) @ [node_name n] \<and>
           (\<forall>k. run_graph env (Suc (Suc k)) supervisor st = run_graph env k supervisor st')"
proof -
  let ?s1 = "apply_update st (no_update\<lparr>upd_next := Some (node_name n)\<rparr>)"
  have sup: "supervisor_agent env st = Inr (no_update\<lparr>upd_next := Some (node_name n)\<rparr>)"
    using supervisor_step [OF assms(1), of st] assms(2) by simp
  from member_returns [OF assms(3), of env ?s1]
  obtain u where "node_fn n env ?s1 = Inr u \<and> map msg_name (upd_messages u) = [node_name n]" ..
  then have u: "node_fn n env ?s1 = Inr u" "map msg_name (upd_messages u) = [node_name n]"
    by (rule conjunct1, rule conjunct2)
  let ?s2 = "apply_update ?s1 u"
  have names: "map msg_name (messages ?s2) = map msg_name (messages st) @ [node_name n]"
    using u(2) routed_state [of st "node_name n"] by (simp add: apply_update_names)
  have run: "run_graph env (Suc (Suc k)) supervisor st = run_graph env k supervisor ?s2" for k
  proof -
    have "run_graph env (Suc (Suc k)) supervisor st = run_graph env (Suc k) n ?s1"
      using sup routed_state [of st "node_name n"] path_map_member [OF assms(3)]
      by (simp add: Let_def)
    also have "\<dots> = run_graph env k supervisor ?s2"
      using u(1) assms(3) by (simp add: Let_def)
    finally show ?thesis .
  qed
  from run have "\<forall>k. run_graph env (Suc (Suc k)) supervisor st = run_graph env k supervisor ?s2"
    by (rule allI)
  with names show ?thesis by (intro exI [of _ ?s2] conjI)
qed

lemma finish:
  assumes "\<forall>msgs. route_invoke env msgs = Inr (workflow_rules (map msg_name msgs))"
    and "workflow_rules (map msg_name (messages st)) = ''FINISH''"
  shows "\<exists>final. run_graph env (Suc k) supervisor st = Inr final \<and>
           map msg_name (messages final) = map msg_name (messages st)"
proof -
  let ?s1 = "apply_update st (no_update\<lparr>upd_next := Some ''FINISH''\<rparr>)"
  have sup: "supervisor_agent env st = Inr (no_update\<lparr>upd_next := Some ''FINISH''\<rparr>)"
    using supervisor_step [OF assms(1), of st] assms(2) by simp
  have "map_of path_map ''FINISH'' = Some None" by (simp add: path_map_def)
  then have "run_graph env (Suc k) supervisor st = Inr ?s1"
    using sup routed_state [of st "''FINISH''"] by (simp add: Let_def)
  with routed_state [of st "''FINISH''"] show ?thesis by simp
qed

lemma full_run_returns:
  assumes f: "\<forall>msgs. route_invoke env msgs = Inr (workflow_rules (map msg_name msgs))"
    and st: "map msg_name (messages st) = [''user'']"
  shows "\<exists>final. run_graph env (Suc (Suc (Suc (Suc (Suc (Suc (Suc (Suc (Suc (Suc (Suc k)))))))))))
                    supervisor st = Inr final \<and>
           map msg_name (messages final) =
             [''user'', ''ResumeAnalyzer'', ''LinkedInAnalyzer'', ''CoverLetterAnalyzer'',
              ''JobMatcher'', ''FinalRanker'']"
proof -
  have w0: "workflow_rules (map msg_name (messages st)) = node_name ResumeAnalyzer"
    by (simp add: st workflow_rules_def)
  from round_trip [OF f w0]
  obtain s1 where s1': "map msg_name (messages s1) = map msg_name (messages st) @ [node_name ResumeAnalyzer] \<and>
      (\<forall>k. run_graph env (Suc (Suc k)) supervisor st = run_graph env k supervisor s1)" by fast
  then have s1: "map msg_name (messages s1) = [''user'', ''ResumeAnalyzer'']"
    "\<And>k. run_graph env (Suc (Suc k)) supervisor st = run_graph env k supervisor s1"
    by (simp_all add: st)
  have w1: "workflow_rules (map msg_name (messages s1)) = node_name LinkedInAnalyzer"
    by (simp add: s1(1) workflow_rules_def)
  from round_trip [OF f w1]
  obtain s2 where s2': "map msg_name (messages s2) = map msg_name (messages s1) @ [node_name LinkedInAnalyzer] \<and>
      (\<forall>k. run_graph env (Suc (Suc k)) supervisor s1 = run_graph env k supervisor s2)" by fast
  then have s2: "map msg_name (messages s2) = [''user'', ''ResumeAnalyzer'', ''LinkedInAnalyzer'']"
    "\<And>k. run_graph env (Suc (Suc k)) supervisor s1 = run_graph env k supervisor s2"
    by (simp_all add: s1(1))
  have w2: "workflow_rules (map msg_name (messages s2)) = node_name CoverLetterAnalyzer"
    by (simp add: s2(1) workflow_rules_def)
  from round_trip [OF f w2]
  obtain s3 where s3': "map msg_name (messages s3) = map msg_name (messages s2) @ [node_name CoverLetterAnalyzer] \<and>
      (\<forall>k. run_graph env (Suc (Suc k)) supervisor s2 = run_graph env k supervisor s3)" by fast
  then have s3: "map msg_name (messages s3) = [''user'', ''ResumeAnalyzer'', ''LinkedInAnalyzer'', ''CoverLetterAnalyzer'']"
    "\<And>k. run_graph env (Suc (Suc k)) supervisor s2 = run_graph env k supervisor s3"
    by (simp_all add: s2(1))
  have w3: "workflow_rules (map msg_name (messages s3)) = node_name JobMatcher"
    by (simp add: s3(1) workflow_rules_def)
  from round_trip [OF f w3]
  obtain s4 where s4': "map msg_name (messages s4) = map msg_name (messages s3) @ [node_name JobMatcher] \<and>
      (\<forall>k. run_graph env (Suc (Suc k)) supervisor s3 = run_graph env k supervisor s4)" by fast
  then have s4: "map msg_name (messages s4) = [''user'', ''ResumeAnalyzer'', ''LinkedInAnalyzer'', ''CoverLetterAnalyzer'', ''JobMatcher'']"
    "\<And>k. run_graph env (Suc (Suc k)) supervisor s3 = run_graph env k supervisor s4"
    by (simp_all add: s3(1))
  have w4: "workflow_rules (map msg_name (messages s4)) = node_name FinalRanker"
    by (simp add: s4(1) workflow_rules_def)
  from round_trip [OF f w4]
  obtain s5 where s5': "map msg_name (messages s5) = map msg_name (messages s4) @ [node_name FinalRanker] \<and>
      (\<forall>k. run_graph env (Suc (Suc k)) supervisor s4 = run_graph env k supervisor s5)" by fast
  then have s5: "map msg_name (messages s5) = [''user'', ''ResumeAnalyzer'', ''LinkedInAnalyzer'', ''CoverLetterAnalyzer'', ''JobMatcher'', ''FinalRanker'']"
    "\<And>k. run_graph env (Suc (Suc k)) supervisor s4 = run_graph env k supervisor s5"
    by (simp_all add: s4(1))
  have w5: "workflow_rules (map msg_name (messages s5)) = ''FINISH''"
    by (simp add: s5(1) workflow_rules_def)
  from finish [OF f w5, of k]
  obtain final where "run_graph env (Suc k) supervisor s5 = Inr final \<and>
    map msg_name (messages final) = map msg_name (messages s5)" ..
  then have final: "run_graph env (Suc k) supervisor s5 = Inr final"
    "map msg_name (messages final) = map msg_name (messages s5)"
    by (rule conjunct1, rule conjunct2)
  have "run_graph env (Suc (Suc (Suc (Suc (Suc (Suc (Suc (Suc (Suc (Suc (Suc k)))))))))))
          supervisor st = run_graph env (Suc k) supervisor s5"
    by (simp only: s1(2) s2(2) s3(2) s4(2) s5(2))
  with final s5(1) show ?thesis by simp
qed

lemma eleven_more:
  assumes "11 \<le> (limit :: nat)"
  shows "\<exists>k. limit = Suc (Suc (Suc (Suc (Suc (Suc (Suc (Suc (Suc (Suc (Suc k))))))))))"
proof -
  from assms obtain k where "limit = 11 + k" using le_Suc_ex by blast
  then have "limit = Suc (Suc (Suc (Suc (Suc (Suc (Suc (Suc (Suc (Suc (Suc k))))))))))"
    by simp
  then show ?thesis ..
qed

lemma initial_names: "map msg_name (messages (initial_state offer cands)) = [''user'']"
  by (simp add: initial_state_def HumanMessage_def)

lemma complete_run:
  assumes "run_graph env limit supervisor (initial_state offer cands) = Inr final"
    and "distinct (candidate_ids cands)"
    and "set [''ResumeAnalyzer'', ''LinkedInAnalyzer'', ''CoverLetterAnalyzer'', ''JobMatcher'']
           \<subseteq> set (map msg_name (messages final))"
  shows "map fst (resume_analyses final) = candidate_ids cands \<and>
         map fst (linkedin_analyses final) = candidate_ids cands \<and>
         map fst (cover_letter_analyses final) = candidate_ids cands \<and>
         map fst (job_matches final) = candidate_ids cands"
proof -
  have c: "candidates (initial_state offer cands) = cands" by (simp add: initial_state_def)
  from run_graph_keeps_maps_complete [OF assms(1)] assms(2) c initial_maps_complete [of offer cands]
  have "maps_complete final" and "candidates final = cands" by simp_all
  with assms(3) show ?thesis by (simp add: maps_complete_def)
qed

text \<open>
  Claim C4. A run of the graph from the initial state over candidates whose ids are
  all different: when the run returns and the four per-candidate steps have left
  their completion markers, each of the four dictionaries of the final state has the
  ids of the candidates as its keys, in input order, one entry per candidate. When the
  routing replies follow the workflow rules and the recursion limit allows the eleven
  node executions of the workflow, the run does return, and each of the four
  dictionaries of the result has exactly as many entries as there are candidates.
\<close>

theorem full_run_fills_every_map:
  "(run_graph env limit supervisor (initial_state offer cands) = Inr final \<and>
    distinct (candidate_ids cands) \<and>
    set [''ResumeAnalyzer'', ''LinkedInAnalyzer'', ''CoverLetterAnalyzer'', ''JobMatcher'']
      \<subseteq> set (map msg_name (messages final)) \<longrightarrow>
      map fst (resume_analyses final) = candidate_ids cands \<and>
      map fst (linkedin_analyses final) = candidate_ids cands \<and>
      map fst (cover_letter_analyses final) = candidate_ids cands \<and>
      map fst (job_matches final) = candidate_ids cands) \<and>
   ((\<forall>msgs. route_invoke env msgs = Inr (workflow_rules (map msg_name msgs))) \<and>
    11 \<le> limit \<and> distinct (candidate_ids cands) \<longrightarrow>
      (\<exists>out. evaluate_candidates env limit offer cands = Inr out \<and>
         map fst (out_resume_analyses out) = candidate_ids cands \<and>
         map fst (out_linkedin_analyses out) = candidate_ids cands \<and>
         map fst (out_cover_letter_analyses out) = candidate_ids cands \<and>
         map fst (out_job_matches out) = candidate_ids cands \<and>
         length (out_resume_analyses out) = length cands \<and>
         length (out_linkedin_analyses out) = length cands \<and>
         length (out_cover_letter_analyses out) = length cands \<and>
         length (out_job_matches out) = length cands))"
proof (intro conjI impI)
  assume "run_graph env limit supervisor (initial_state offer cands) = Inr final \<and>
    distinct (candidate_ids cands) \<and>
    set [''ResumeAnalyzer'', ''LinkedInAnalyzer'', ''CoverLetterAnalyzer'', ''JobMatcher'']
      \<subseteq> set (map msg_name (messages final))"
  then have r: "map fst (resume_analyses final) = candidate_ids cands \<and>
         map fst (linkedin_analyses final) = candidate_ids cands \<and>
         map fst (cover_letter_analyses final) = candidate_ids cands \<and>
         map fst (job_matches final) = candidate_ids cands"
    using complete_run [of env limit offer cands final] by blast
  from r show "map fst (resume_analyses final) = candidate_ids cands" by simp
  from r show "map fst (linkedin_analyses final) = candidate_ids cands" by simp
  from r show "map fst (cover_letter_analyses final) = candidate_ids cands" by simp
  from r show "map fst (job_matches final) = candidate_ids cands" by simp
next
  assume a: "(\<forall>msgs. route_invoke env msgs = Inr (workflow_rules (map msg_name msgs))) \<and>
    11 \<le> limit \<and> distinct (candidate_ids cands)"
  then obtain k where k: "limit = Suc (Suc (Suc (Suc (Suc (Suc (Suc (Suc (Suc (Suc (Suc k))))))))))"
    using eleven_more by blast
  from a have f: "\<forall>msgs. route_invoke env msgs = Inr (workflow_rules (map msg_name msgs))"
    by (rule conjunct1)
  have "\<exists>final. run_graph env limit supervisor (initial_state offer cands) = Inr final \<and>
      map msg_name (messages final) =
        [''user'', ''ResumeAnalyzer'', ''LinkedInAnalyzer'', ''CoverLetterAnalyzer'',
         ''JobMatcher'', ''FinalRanker'']"
    unfolding k by (rule full_run_returns [OF f initial_names])
  then obtain final where "run_graph env limit supervisor (initial_state offer cands) = Inr final \<and>
      map msg_name (messages final) =
        [''user'', ''ResumeAnalyzer'', ''LinkedInAnalyzer'', ''CoverLetterAnalyzer'',
         ''JobMatcher'', ''FinalRanker'']" ..
  then have final: "run_graph env limit supervisor (initial_state offer cands) = Inr final"
    and names: "map msg_name (messages final) =
        [''user'', ''ResumeAnalyzer'', ''LinkedInAnalyzer'', ''CoverLetterAnalyzer'',
         ''JobMatcher'', ''FinalRanker'']" by (rule conjunct1, rule conjunct2)
  from names have sub:
    "set [''ResumeAnalyzer'', ''LinkedInAnalyzer'', ''CoverLetterAnalyzer'', ''JobMatcher'']
       \<subseteq> set (map msg_name (messages final))" by simp
  from a have d: "distinct (candidate_ids cands)" by simp
  from complete_run [OF final d sub]
  have maps: "map fst (resume_analyses final) = candidate_ids cands"
    "map fst (linkedin_analyses final) = candidate_ids cands"
    "map fst (cover_letter_analyses final) = candidate_ids cands"
    "map fst (job_matches final) = candidate_ids cands" by simp_all
  have len: "length (candidate_ids cands) = length cands" by (simp add: candidate_ids_def)
  have lens: "length (resume_analyses final) = length cands"
    "length (linkedin_analyses final) = length cands"
    "length (cover_letter_analyses final) = length cands"
    "length (job_matches final) = length cands"
    using maps len by (metis length_map)+
  show "\<exists>out. evaluate_candidates env limit offer cands = Inr out \<and>
         map fst (out_resume_analyses out) = candidate_ids cands \<and>
         map fst (out_linkedin_analyses out) = candidate_ids cands \<and>
         map fst (out_cover_letter_analyses out) = candidate_ids cands \<and>
         map fst (out_job_matches out) = candidate_ids cands \<and>
         length (out_resume_analyses out) = length cands \<and>
         length (out_linkedin_analyses out) = length cands \<and>
         length (out_cover_letter_analyses out) = length cands \<and>
         length (out_job_matches out) = length cands"
    using final maps lens by (simp add: evaluate_candidates_def)
qed

lemma distinct_alice_bob: "distinct (candidate_ids [alice, bob])"
  by (simp add: ids_alice_bob)

text \<open>The statement of C4 for a run over \<open>alice\<close> and \<open>bob\<close> with the limit 25.\<close>

theorem full_run_fills_every_map_witness:
  "(\<forall>msgs. route_invoke sample_env msgs = Inr (workflow_rules (map msg_name msgs))) \<and>
   (11::nat) \<le> 25 \<and> distinct (candidate_ids [alice, bob]) \<and>
   (\<exists>out. evaluate_candidates sample_env 25 ''Python developer'' [alice, bob] = Inr out \<and>
      map fst (out_resume_analyses out) = [''alice'', ''candidate_1''] \<and>
      map fst (out_linkedin_analyses out) = [''alice'', ''candidate_1''] \<and>
      map fst (out_cover_letter_analyses out) = [''alice'', ''candidate_1''] \<and>
      map fst (out_job_matches out) = [''alice'', ''candidate_1''] \<and>
      length (out_resume_analyses out) = 2)"
proof -
  have f: "\<forall>msgs. route_invoke sample_env msgs = Inr (workflow_rules (map msg_name msgs))"
    by (simp add: sample_env_def)
  have l: "(11::nat) \<le> 25" by simp
  from full_run_fills_every_map [of sample_env 25 "''Python developer''" "[alice, bob]"]
    f l distinct_alice_bob
  have "\<exists>out. evaluate_candidates sample_env 25 ''Python developer'' [alice, bob] = Inr out \<and>
      map fst (out_resume_analyses out) = candidate_ids [alice, bob] \<and>
      map fst (out_linkedin_analyses out) = candidate_ids [alice, bob] \<and>
      map fst (out_cover_letter_analyses out) = candidate_ids [alice, bob] \<and>
      map fst (out_job_matches out) = candidate_ids [alice, bob] \<and>
      length (out_resume_analyses out) = length [alice, bob] \<and>
      length (out_linkedin_analyses out) = length [alice, bob] \<and>
      length (out_cover_letter_analyses out) = length [alice, bob] \<and>
      length (out_job_matches out) = length [alice, bob]"
    by blast
  then have "\<exists>out. evaluate_candidates sample_env 25 ''Python developer'' [alice, bob] = Inr out \<and>
      map fst (out_resume_analyses out) = [''alice'', ''candidate_1''] \<and>
      map fst (out_linkedin_analyses out) = [''alice'', ''candidate_1''] \<and>
      map fst (out_cover_letter_analyses out) = [''alice'', ''candidate_1''] \<and>
      map fst (out_job_matches out) = [''alice'', ''candidate_1''] \<and>
      length (out_resume_analyses out) = 2"
    by (fastforce simp: ids_alice_bob)
  with f l distinct_alice_bob show ?thesis by blast
qed

end
